theory Spec2Isabelle
  imports Main
begin

section \<open>JavaScript values shared by the handlers\<close>

text \<open>
  An error object as the handlers inspect it: its message, the optional
  \<^verbatim>\<open>imapResponse\<close> protocol code, the optional Boom \<^verbatim>\<open>output\<close>
  (status code and \<^verbatim>\<open>payload.error\<close>) and the \<^verbatim>\<open>isCodeBug\<close> mark.
\<close>

record js_error =
  err_message :: string
  imapResponse :: "string option"
  boom_output :: "(nat \<times> string) option"
  isCodeBug :: bool

text \<open>\<^verbatim>\<open>if (err.imapResponse)\<close>: a missing property and the empty string are falsy.\<close>

definition has_imapResponse :: "js_error \<Rightarrow> bool" where
  "has_imapResponse e = (case imapResponse e of None \<Rightarrow> False | Some c \<Rightarrow> c \<noteq> [])"

definition plain_error :: "string \<Rightarrow> js_error" where
  "plain_error m = \<lparr>err_message = m, imapResponse = None, boom_output = None, isCodeBug = False\<rparr>"

text \<open>\<^verbatim>\<open>new IMAPError(message, { imapResponse })\<close>\<close>

definition IMAPError :: "string \<Rightarrow> string \<Rightarrow> js_error" where
  "IMAPError m code =
     \<lparr>err_message = m, imapResponse = Some code, boom_output = None, isCodeBug = False\<rparr>"

text \<open>\<^verbatim>\<open>Boom.unauthorized(message)\<close>: status 401, payload error "Unauthorized".\<close>

definition Boom_unauthorized :: "string \<Rightarrow> js_error" where
  "Boom_unauthorized m =
     \<lparr>err_message = m, imapResponse = None, boom_output = Some (401, ''Unauthorized''),
      isCodeBug = False\<rparr>"

section \<open>The websocket server of the backend (class SQLite)\<close>

subsection \<open>Inbound frames\<close>

text \<open>
  The \<^verbatim>\<open>data\<close> argument of the \<^verbatim>\<open>message\<close> listener: absent, a string, or a
  Buffer of bytes. A Buffer is an object, so it is truthy even when it is empty. Its
  \<^verbatim>\<open>toString()\<close> is taken to return the bytes as characters, which is what the UTF-8
  decoding does for the ASCII frames the listener tells apart.
\<close>

datatype ws_data = Undefined | Text string | Buffer string

fun js_falsy :: "ws_data \<Rightarrow> bool" where
  "js_falsy Undefined = True"
| "js_falsy (Text s) = (s = [])"
| "js_falsy (Buffer b) = False"

fun data_length :: "ws_data \<Rightarrow> nat" where
  "data_length Undefined = 0"
| "data_length (Text s) = length s"
| "data_length (Buffer b) = length b"

fun data_toString :: "ws_data \<Rightarrow> string" where
  "data_toString Undefined = []"
| "data_toString (Text s) = s"
| "data_toString (Buffer b) = b"

text \<open>
  The part of the server's state the listener touches: the acknowledgment set
  \<^verbatim>\<open>uuidsReceived\<close>, the timers registered with \<^verbatim>\<open>setTimeout\<close> (delay in
  milliseconds and the uuid the callback deletes), the frames handed to
  \<^verbatim>\<open>parsePayload\<close>, and \<^verbatim>\<open>isAlive\<close>.
\<close>

record sqlite_state =
  uuidsReceived :: "string set"
  timers :: "(nat \<times> string) list"
  parsed :: "ws_data list"
  isAlive :: bool

definition on_message :: "sqlite_state \<Rightarrow> ws_data \<Rightarrow> sqlite_state" where
  "on_message s0 data =
     (let s = s0\<lparr>isAlive := True\<rparr> in
      if js_falsy data then s
      else if data_length data = 4 \<and> data_toString data = ''ping'' then s
      else if data_length data = 36 then
        (let uuid = data_toString data in
         s\<lparr>uuidsReceived := insert uuid (uuidsReceived s),
           timers := timers s @ [(1000, uuid)]\<rparr>)
      else s\<lparr>parsed := parsed s @ [data]\<rparr>)"

text \<open>The callback of a registered timer: \<^verbatim>\<open>this.uuidsReceived.delete(uuid)\<close>.\<close>

definition timer_fires :: "sqlite_state \<Rightarrow> (nat \<times> string) \<Rightarrow> sqlite_state" where
  "timer_fires s t =
     s\<lparr>uuidsReceived := uuidsReceived s - {snd t}, timers := remove1 t (timers s)\<rparr>"

definition idle_server :: sqlite_state where
  "idle_server = \<lparr>uuidsReceived = {}, timers = [], parsed = [], isAlive = False\<rparr>"

subsection \<open>Authentication of upgrade requests\<close>

text \<open>
  \<^verbatim>\<open>auth(request)\<close> yields \<^verbatim>\<open>undefined\<close> or a name and a pass.
  \<^verbatim>\<open>decrypt\<close> (helpers/encrypt-decrypt) and \<^verbatim>\<open>env.API_SECRETS\<close> (the
  configuration) are parameters; \<^verbatim>\<open>decrypt\<close> may throw.
\<close>

record credentials =
  cred_name :: string
  cred_pass :: string

record auth_env =
  decrypt :: "string \<Rightarrow> js_error + string"
  API_SECRETS :: "string list"

text \<open>The result is the argument \<^verbatim>\<open>authenticate\<close> passes to \<^verbatim>\<open>fn\<close>.\<close>

definition authenticate :: "auth_env \<Rightarrow> credentials option \<Rightarrow> js_error option" where
  "authenticate env creds =
     (case creds of
        None \<Rightarrow> Some (Boom_unauthorized ''INVALID_API_CREDENTIALS'')
      | Some c \<Rightarrow>
          if cred_name c = [] then Some (Boom_unauthorized ''INVALID_API_CREDENTIALS'')
          else (case decrypt env (cred_name c) of
                  Inl e \<Rightarrow> Some (e\<lparr>isCodeBug := True\<rparr>)
                | Inr v \<Rightarrow>
                    if v \<notin> set (API_SECRETS env)
                    then Some (Boom_unauthorized ''INVALID_API_TOKEN'')
                    else None))"

text \<open>The decimal digit of a number below ten.\<close>

definition digit_char :: "nat \<Rightarrow> char" where
  "digit_char n = ''0123456789'' ! (n mod 10)"

fun show_nat :: "nat \<Rightarrow> string" where
  "show_nat n = (if n < 10 then [digit_char n] else show_nat (n div 10) @ [digit_char (n mod 10)])"

declare show_nat.simps [simp del]

text \<open>
  The template literal
  \<^verbatim>\<open>HTTP/1.1 ${err?.output?.statusCode || 401} ${err?.output?.payload?.error || 'Unauthorized'}\r\n\r\n\<close>.
\<close>

definition CRLF :: string where
  "CRLF = [CHR 0x0D, CHR 0x0A]"

definition status_line :: "js_error \<Rightarrow> string" where
  "status_line e =
     ''HTTP/1.1 ''
     @ show_nat (case boom_output e of None \<Rightarrow> 401 | Some (c, r) \<Rightarrow> if c = 0 then 401 else c)
     @ '' ''
     @ (case boom_output e of None \<Rightarrow> ''Unauthorized''
        | Some (c, r) \<Rightarrow> if r = [] then ''Unauthorized'' else r)
     @ CRLF @ CRLF"

datatype socket_event =
    SocketOnError
  | SocketWrite string
  | SocketDestroy
  | SocketRemoveErrorListener
  | HandleUpgrade

text \<open>The \<^verbatim>\<open>upgrade\<close> listener: what happens to the socket, in order.\<close>

definition on_upgrade :: "auth_env \<Rightarrow> credentials option \<Rightarrow> socket_event list" where
  "on_upgrade env creds =
     SocketOnError #
     (case authenticate env creds of
        Some e \<Rightarrow> [SocketWrite (status_line e), SocketDestroy]
      | None \<Rightarrow> [SocketRemoveErrorListener, HandleUpgrade])"

definition unauthorized_line :: string where
  "unauthorized_line = ''HTTP/1.1 401 Unauthorized'' @ CRLF @ CRLF"

definition demo_auth :: auth_env where
  "demo_auth =
     \<lparr>decrypt = (\<lambda>n. if n = ''c1'' then Inr ''s3cret''
                     else if n = ''c2'' then Inr ''other''
                     else Inl (plain_error ''bad decrypt'')),
      API_SECRETS = [''s3cret'']\<rparr>"

definition uuid_frame :: string where
  "uuid_frame = ''123e4567-e89b-12d3-a456-426614174000''"

section \<open>The mailbox database and the IMAP command handlers\<close>

subsection \<open>Data\<close>

record mailbox =
  mailbox_id :: string
  path :: string
  subscribed :: bool

text \<open>
  A row of the Messages table. \<open>attachmentMap\<close> is
  \<^verbatim>\<open>message.mimeTree.attachmentMap\<close> (key and attachment id, in key order),
  \<open>None\<close> when the tree or the map is missing.
\<close>

record message =
  msg_id :: string
  msg_mailbox :: string
  uid :: nat
  undeleted :: bool
  attachmentMap :: "(string \<times> string) list option"
  magic :: string
  thread :: string
  unseen :: bool
  idate :: nat

text \<open>The entry handed to \<^verbatim>\<open>notifier.addEntries\<close>.\<close>

record change_entry =
  ce_ignore :: string
  ce_command :: string
  ce_uid :: nat
  ce_mailbox :: string
  ce_message :: string
  ce_thread :: string
  ce_unseen :: bool
  ce_idate :: nat

record lock_token =
  lock_id :: string
  lock_success :: bool

record expunge_update =
  isUid :: bool
  update_messages :: "nat list"
  silent :: bool

text \<open>
  The session fields the handlers read: \<open>selected_mailbox\<close> is
  \<^verbatim>\<open>session.selected.mailbox\<close> when both exist, \<open>db_wsp\<close> is
  \<^verbatim>\<open>session.db.wsp\<close>.
\<close>

record session =
  session_id :: string
  alias_id :: string
  user_locale :: string
  remoteAddress :: string
  selected_mailbox :: "string option"
  db_wsp :: bool

text \<open>\<^verbatim>\<open>this\<close>: the name of its constructor and whether \<^verbatim>\<open>this.wsp\<close> is set.\<close>

record server =
  constructor_name :: string
  has_wsp :: bool

text \<open>
  A protocol write: an array such as \<^verbatim>\<open>['EXPUNGE', uid]\<close> (sent through
  \<^verbatim>\<open>session.formatResponse\<close>) or a raw string.
\<close>

datatype imap_write = Response string nat | Raw string

datatype js_val = VBool bool | VStr string | VWrites "imap_write list"

text \<open>A call \<^verbatim>\<open>fn(err, ...args)\<close> of the protocol callback.\<close>

datatype callback = Fn "js_error option" "js_val list"

text \<open>
  Every call the handlers make to the outside, in the order made. \<open>DeleteOne\<close> carries
  the row and what the call threw or reported as \<^verbatim>\<open>deletedCount\<close>.
\<close>

datatype event =
    RefreshSession string
  | RpcRequest string
  | AcquireLock "js_error + lock_token"
  | ReleaseLock lock_token
  | DeleteOne message "js_error + nat option"
  | DeleteMany "string list" string
  | Fire string
  | SessionWrite imap_write
  | LogFatal js_error
  | LogError js_error
  | Callback callback

record world =
  mailboxes :: "mailbox list"
  messages :: "message list"
  journal :: "change_entry list"
  trace :: "event list"

text \<open>
  The collaborators the handlers call (helpers/lock, helpers/refresh-session,
  helpers/refine-and-log-error, helpers/i18n, the models, the attachment storage, the
  notifier, the websocket client and wildduck's \<^verbatim>\<open>tools\<close>) are parameters: whether and
  with what each call throws, the refreshed session, the lock \<^verbatim>\<open>acquireLock\<close> returns,
  the \<^verbatim>\<open>deletedCount\<close> that \<^verbatim>\<open>Messages.deleteOne\<close> reports for a row (\<open>None\<close> when
  the result has none),
  the uid condition \<^verbatim>\<open>tools.checkRangeQuery\<close> builds (as the predicate on uids it
  stands for), \<^verbatim>\<open>refineAndLogError\<close>, \<^verbatim>\<open>i18n.translate\<close> and the replies of
  \<^verbatim>\<open>this.wsp.request\<close>.
\<close>

record env =
  refreshSession :: "session \<Rightarrow> string \<Rightarrow> js_error + session"
  findOne_fails :: "js_error option"
  findOneAndUpdate_fails :: "js_error option"
  translate :: "string \<Rightarrow> string \<Rightarrow> string"
  checkRangeQuery :: "nat list \<Rightarrow> nat \<Rightarrow> bool"
  acquireLock :: "js_error + lock_token"
  select_fails :: "js_error option"
  convertResult_fails :: "message \<Rightarrow> js_error option"
  deleteOne_fails :: "message \<Rightarrow> js_error option"
  deleteOne_reports :: "message \<Rightarrow> nat option"
  deleteMany_fails :: "message \<Rightarrow> js_error option"
  addEntries_fails :: "message \<Rightarrow> js_error option"
  fire_fails :: "message \<Rightarrow> js_error option"
  releaseLock_fails :: "js_error option"
  size_fails :: "js_error option"
  refineAndLogError :: "js_error \<Rightarrow> js_error"
  rpc_expunge :: "js_error + (js_val \<times> imap_write list option)"
  rpc_unsubscribe :: "js_error + js_val list"

definition emit :: "event \<Rightarrow> world \<Rightarrow> world" where
  "emit ev w = w\<lparr>trace := trace w @ [ev]\<rparr>"

definition respond :: "callback \<Rightarrow> world \<Rightarrow> callback \<times> world" where
  "respond cb w = (cb, emit (Callback cb) w)"

subsection \<open>Database operations\<close>

text \<open>
  Modelled from the spec: \<^verbatim>\<open>Mailboxes.findOne(this, session, { _id: mailboxId })\<close>
  (models/mailboxes) resolves the target mailbox by id among the mailboxes of the account.
\<close>

definition findOne :: "world \<Rightarrow> string \<Rightarrow> mailbox option" where
  "findOne w mid = find (\<lambda>m. mailbox_id m = mid) (mailboxes w)"

text \<open>
  The condition object of the handler: \<^verbatim>\<open>mailbox\<close> is the id of the mailbox,
  \<^verbatim>\<open>undeleted\<close> is false, and \<^verbatim>\<open>uid\<close> is constrained when \<^verbatim>\<open>update.isUid\<close>.
  The select statement built from it with \<^verbatim>\<open>sort: 'uid'\<close> returns the rows of the
  Messages table that satisfy the condition, in ascending uid order.
\<close>

definition expunge_condition :: "env \<Rightarrow> mailbox \<Rightarrow> expunge_update \<Rightarrow> message \<Rightarrow> bool" where
  "expunge_condition env mb upd m =
     (msg_mailbox m = mailbox_id mb \<and> undeleted m = False \<and>
      (if isUid upd then checkRangeQuery env (update_messages upd) (uid m) else True))"

definition select_messages :: "env \<Rightarrow> mailbox \<Rightarrow> expunge_update \<Rightarrow> world \<Rightarrow> message list" where
  "select_messages env mb upd w =
     sort_key uid (filter (expunge_condition env mb upd) (messages w))"

fun delete_first :: "('a \<Rightarrow> bool) \<Rightarrow> 'a list \<Rightarrow> 'a list" where
  "delete_first P [] = []"
| "delete_first P (x # xs) = (if P x then xs else x # delete_first P xs)"

text \<open>
  Modelled from the spec:
  \<^verbatim>\<open>Messages.deleteOne(this, session, { _id, mailbox, uid }, { lock })\<close> (models/messages)
  physically deletes the row. What it reports as \<^verbatim>\<open>deletedCount\<close> is a parameter; when
  it reports at least one row, the first row that matches the filter is removed.
\<close>

definition deleteOne_filter :: "mailbox \<Rightarrow> message \<Rightarrow> message \<Rightarrow> bool" where
  "deleteOne_filter mb m r =
     (msg_id r = msg_id m \<and> msg_mailbox r = mailbox_id mb \<and> uid r = uid m)"

definition deleteOne :: "env \<Rightarrow> mailbox \<Rightarrow> message \<Rightarrow> world \<Rightarrow> nat option \<times> world" where
  "deleteOne env mb m w =
     (let n = deleteOne_reports env m;
          rows = (case n of
                    None \<Rightarrow> messages w
                  | Some k \<Rightarrow>
                      if k = 0 then messages w
                      else delete_first (deleteOne_filter mb m) (messages w))
      in (n, emit (DeleteOne m (Inr n)) (w\<lparr>messages := rows\<rparr>)))"

text \<open>
  Modelled from the spec:
  \<^verbatim>\<open>Mailboxes.findOneAndUpdate(this, session, { path }, { $set: { subscribed: false } })\<close>
  (models/mailboxes) locates the mailbox by path and clears its subscription flag; the
  result is the mailbox found, if any.
\<close>

fun unsubscribe_first :: "string \<Rightarrow> mailbox list \<Rightarrow> mailbox list" where
  "unsubscribe_first p [] = []"
| "unsubscribe_first p (m # ms) =
     (if path m = p then m\<lparr>subscribed := False\<rparr> # ms else m # unsubscribe_first p ms)"

definition findOneAndUpdate :: "string \<Rightarrow> world \<Rightarrow> mailbox option \<times> world" where
  "findOneAndUpdate p w =
     (find (\<lambda>m. path m = p) (mailboxes w),
      w\<lparr>mailboxes := unsubscribe_first p (mailboxes w)\<rparr>)"

subsection \<open>EXPUNGE\<close>

definition attachmentIds :: "message \<Rightarrow> string list" where
  "attachmentIds m = (case attachmentMap m of None \<Rightarrow> [] | Some kv \<Rightarrow> map snd kv)"

text \<open>The guarded call of \<^verbatim>\<open>attachmentStorage.deleteMany\<close>.\<close>

definition delete_attachments :: "env \<Rightarrow> message \<Rightarrow> world \<Rightarrow> world" where
  "delete_attachments env m w =
     (if length (attachmentIds m) > 0 then
        (let w1 = emit (DeleteMany (attachmentIds m) (magic m)) w in
         case deleteMany_fails env m of
           Some e \<Rightarrow> emit (LogFatal e) w1
         | None \<Rightarrow> w1)
      else w)"

definition mailbox_selected :: "session \<Rightarrow> mailbox \<Rightarrow> bool" where
  "mailbox_selected ses mb =
     (case selected_mailbox ses of
        None \<Rightarrow> False
      | Some sm \<Rightarrow> sm \<noteq> [] \<and> sm = mailbox_id mb)"

text \<open>"write to socket we've expunged message"\<close>

definition write_expunged ::
  "server \<Rightarrow> session \<Rightarrow> mailbox \<Rightarrow> expunge_update \<Rightarrow> message \<Rightarrow> imap_write list \<Rightarrow> world
   \<Rightarrow> imap_write list \<times> world" where
  "write_expunged self ses mb upd m ws w =
     (if \<not> silent upd \<or> mailbox_selected ses mb then
        (if constructor_name self = ''IMAP''
         then (ws, emit (SessionWrite (Response ''EXPUNGE'' (uid m))) w)
         else (ws @ [Response ''EXPUNGE'' (uid m)], w))
      else (ws, w))"

definition expunge_entry :: "session \<Rightarrow> mailbox \<Rightarrow> message \<Rightarrow> change_entry" where
  "expunge_entry ses mb m =
     \<lparr>ce_ignore = session_id ses, ce_command = ''EXPUNGE'', ce_uid = uid m,
      ce_mailbox = mailbox_id mb, ce_message = msg_id m, ce_thread = thread m,
      ce_unseen = unseen m, ce_idate = idate m\<rparr>"

text \<open>
  Modelled from the spec: \<^verbatim>\<open>notifier.addEntries\<close> (helpers/imap-notifier) appends the
  Change Entry to the journal of the account.
\<close>

definition addEntries :: "change_entry \<Rightarrow> world \<Rightarrow> world" where
  "addEntries entry w = w\<lparr>journal := journal w @ [entry]\<rparr>"

text \<open>\<^verbatim>\<open>notifier.addEntries\<close> followed by \<^verbatim>\<open>notifier.fire\<close>, in one try block.\<close>

definition notify :: "env \<Rightarrow> session \<Rightarrow> mailbox \<Rightarrow> message \<Rightarrow> world \<Rightarrow> world" where
  "notify env ses mb m w =
     (case addEntries_fails env m of
        Some e \<Rightarrow> emit (LogFatal e) w
      | None \<Rightarrow>
          (let w1 = addEntries (expunge_entry ses mb m) w;
               w2 = emit (Fire (alias_id ses)) w1
           in case fire_fails env m of
                Some e \<Rightarrow> emit (LogFatal e) w2
              | None \<Rightarrow> w2))"

text \<open>The body of the loop over the selected rows; \<open>Some e\<close> is an error thrown out of it.\<close>

definition expunge_message ::
  "env \<Rightarrow> server \<Rightarrow> session \<Rightarrow> mailbox \<Rightarrow> expunge_update \<Rightarrow> message \<Rightarrow> imap_write list \<Rightarrow> world
   \<Rightarrow> js_error option \<times> imap_write list \<times> world" where
  "expunge_message env self ses mb upd result ws w =
     (case convertResult_fails env result of
        Some e \<Rightarrow> (Some e, ws, w)
      | None \<Rightarrow>
          (case deleteOne_fails env result of
             Some e \<Rightarrow> (Some e, ws, emit (DeleteOne result (Inl e)) w)
           | None \<Rightarrow>
               (let (deletedCount, w1) = deleteOne env mb result w in
                if deletedCount = Some 1 then
                  (let w2 = delete_attachments env result w1;
                       (ws', w3) = write_expunged self ses mb upd result ws w2;
                       w4 = notify env ses mb result w3
                   in (None, ws', w4))
                else (None, ws, w1))))"

fun expunge_loop ::
  "env \<Rightarrow> server \<Rightarrow> session \<Rightarrow> mailbox \<Rightarrow> expunge_update \<Rightarrow> message list \<Rightarrow> imap_write list \<Rightarrow> world
   \<Rightarrow> js_error option \<times> imap_write list \<times> world" where
  "expunge_loop env self ses mb upd [] ws w = (None, ws, w)"
| "expunge_loop env self ses mb upd (r # rs) ws w =
     (case expunge_message env self ses mb upd r ws w of
        (Some e, ws', w') \<Rightarrow> (Some e, ws', w')
      | (None, ws', w') \<Rightarrow> expunge_loop env self ses mb upd rs ws' w')"

text \<open>The TypeError of a call of \<^verbatim>\<open>this.wsp.request\<close> when \<^verbatim>\<open>this.wsp\<close> is not set.\<close>

definition wsp_unset :: js_error where
  "wsp_unset = plain_error ''TypeError: this.wsp is undefined''"

text \<open>
  With \<^verbatim>\<open>session.db.wsp\<close> the select statement is sent through
  \<^verbatim>\<open>this.wsp.request\<close>; when \<^verbatim>\<open>this.wsp\<close> is not set that call throws the TypeError
  and no request is made. Otherwise the statement throws what \<open>select_fails\<close> says.
\<close>

definition send_statement :: "server \<Rightarrow> session \<Rightarrow> world \<Rightarrow> world" where
  "send_statement self ses w =
     (if db_wsp ses \<and> has_wsp self then emit (RpcRequest ''stmt'') w else w)"

definition select_error :: "env \<Rightarrow> server \<Rightarrow> session \<Rightarrow> js_error option" where
  "select_error env self ses =
     (if db_wsp ses \<and> \<not> has_wsp self then Some wsp_unset else select_fails env)"

text \<open>The inner try block: the select statement and the loop.\<close>

definition expunge_locked ::
  "env \<Rightarrow> server \<Rightarrow> session \<Rightarrow> mailbox \<Rightarrow> expunge_update \<Rightarrow> world
   \<Rightarrow> js_error option \<times> imap_write list \<times> world" where
  "expunge_locked env self ses mb upd w =
     (let w1 = send_statement self ses w in
      case select_error env self ses of
        Some e \<Rightarrow> (Some e, [], w1)
      | None \<Rightarrow> expunge_loop env self ses mb upd (select_messages env mb upd w1) [] w1)"

definition release_lock :: "env \<Rightarrow> lock_token \<Rightarrow> world \<Rightarrow> world" where
  "release_lock env lk w =
     (let w1 = emit (ReleaseLock lk) w in
      case releaseLock_fails env of
        Some e \<Rightarrow> emit (LogFatal e) w1
      | None \<Rightarrow> w1)"

text \<open>
  The request for the size of the account, in a try block of its own. When \<^verbatim>\<open>this.wsp\<close>
  is not set, \<^verbatim>\<open>this.wsp.request\<close> throws a TypeError, which is logged, and no request
  is made.
\<close>

definition request_size :: "env \<Rightarrow> server \<Rightarrow> world \<Rightarrow> world" where
  "request_size env self w =
     (if has_wsp self then
        (let w1 = emit (RpcRequest ''size'') w in
         case size_fails env of
           Some e \<Rightarrow> emit (LogFatal e) w1
         | None \<Rightarrow> w1)
      else emit (LogFatal wsp_unset) w)"

text \<open>
  From \<^verbatim>\<open>acquireLock\<close> to \<^verbatim>\<open>if (err) throw err\<close>. The result is the error
  thrown or the queued writes, and the value of the variable \<^verbatim>\<open>lock\<close>.
\<close>

definition expunge_mailbox ::
  "env \<Rightarrow> server \<Rightarrow> session \<Rightarrow> mailbox \<Rightarrow> expunge_update \<Rightarrow> world
   \<Rightarrow> (js_error + imap_write list) \<times> lock_token option \<times> world" where
  "expunge_mailbox env self ses mb upd w =
     (case acquireLock env of
        Inl e \<Rightarrow> (Inl e, None, emit (AcquireLock (Inl e)) w)
      | Inr lk \<Rightarrow>
          (let w1 = emit (AcquireLock (Inr lk)) w;
               (err, ws, w2) = expunge_locked env self ses mb upd w1;
               w3 = release_lock env lk w2;
               w4 = request_size env self w3
           in case err of
                Some e \<Rightarrow> (Inl e, Some lk, w4)
              | None \<Rightarrow> (Inr ws, Some lk, w4)))"

definition mailbox_missing :: "env \<Rightarrow> session \<Rightarrow> js_error" where
  "mailbox_missing env ses =
     IMAPError (translate env ''IMAP_MAILBOX_DOES_NOT_EXIST'' (user_locale ses)) ''NONEXISTENT''"

text \<open>The backend part of the outer try block.\<close>

definition expunge_backend ::
  "env \<Rightarrow> server \<Rightarrow> string \<Rightarrow> expunge_update \<Rightarrow> session \<Rightarrow> world
   \<Rightarrow> (js_error + imap_write list) \<times> lock_token option \<times> world" where
  "expunge_backend env self mailboxId upd ses w =
     (let w0 = emit (RefreshSession ''EXPUNGE'') w in
      case refreshSession env ses ''EXPUNGE'' of
        Inl e \<Rightarrow> (Inl e, None, w0)
      | Inr ses' \<Rightarrow>
          (case findOne_fails env of
             Some e \<Rightarrow> (Inl e, None, w0)
           | None \<Rightarrow>
               (case findOne w0 mailboxId of
                  None \<Rightarrow> (Inl (mailbox_missing env ses'), None, w0)
                | Some mb \<Rightarrow> expunge_mailbox env self ses' mb upd w0)))"

text \<open>The outer catch block.\<close>

definition pass_error :: "env \<Rightarrow> js_error \<Rightarrow> callback" where
  "pass_error env err = Fn (Some (refineAndLogError env err)) []"

definition expunge_catch :: "env \<Rightarrow> lock_token option \<Rightarrow> js_error \<Rightarrow> world \<Rightarrow> callback \<times> world" where
  "expunge_catch env lk err w =
     (let w1 = (case lk of
                  None \<Rightarrow> w
                | Some l \<Rightarrow> if lock_success l then release_lock env l w else w)
      in case imapResponse err of
           None \<Rightarrow> respond (pass_error env err) w1
         | Some code \<Rightarrow>
             if code \<noteq> [] then respond (Fn None [VStr code]) (emit (LogError err) w1)
             else respond (pass_error env err) w1)"

text \<open>The front-end part: the request to the backend and the replay of its writes.\<close>

definition expunge_delegate :: "env \<Rightarrow> session \<Rightarrow> world \<Rightarrow> callback \<times> world" where
  "expunge_delegate env ses w =
     (let w1 = emit (RpcRequest ''expunge'') w in
      case rpc_expunge env of
        Inl err \<Rightarrow> respond (Fn (Some err) []) w1
      | Inr (bool, writeStream) \<Rightarrow>
          (let w2 = (case writeStream of
                       None \<Rightarrow> w1
                     | Some wrs \<Rightarrow> foldl (\<lambda>v wr. emit (SessionWrite wr) v) w1 wrs)
           in respond (Fn None [bool]) w2))"

definition onExpunge ::
  "env \<Rightarrow> server \<Rightarrow> string \<Rightarrow> expunge_update \<Rightarrow> session \<Rightarrow> world \<Rightarrow> callback \<times> world" where
  "onExpunge env self mailboxId upd ses w =
     (if constructor_name self = ''IMAP'' then expunge_delegate env ses w
      else
        (case expunge_backend env self mailboxId upd ses w of
           (Inr writeStream, lk, w') \<Rightarrow> respond (Fn None [VBool True, VWrites writeStream]) w'
         | (Inl err, lk, w') \<Rightarrow> expunge_catch env lk err w'))"

subsection \<open>UNSUBSCRIBE\<close>

definition onUnsubscribe :: "env \<Rightarrow> server \<Rightarrow> string \<Rightarrow> session \<Rightarrow> world \<Rightarrow> callback \<times> world" where
  "onUnsubscribe env self p ses w =
     (if has_wsp self then
        (let w1 = emit (RpcRequest ''unsubscribe'') w in
         case rpc_unsubscribe env of
           Inr data \<Rightarrow> respond (Fn None data) w1
         | Inl err \<Rightarrow>
             (case imapResponse err of
                None \<Rightarrow> respond (Fn (Some err) []) w1
              | Some code \<Rightarrow>
                  if code \<noteq> [] then respond (Fn None [VStr code]) w1
                  else respond (Fn (Some err) []) w1))
      else
        (let w0 = emit (RefreshSession ''UNSUBSCRIBE'') w in
         case refreshSession env ses ''UNSUBSCRIBE'' of
           Inl e \<Rightarrow> respond (pass_error env e) w0
         | Inr ses' \<Rightarrow>
             (case findOneAndUpdate_fails env of
                Some e \<Rightarrow> respond (pass_error env e) w0
              | None \<Rightarrow>
                  (case findOneAndUpdate p w0 of
                     (None, w1) \<Rightarrow> respond (pass_error env (mailbox_missing env ses')) w1
                   | (Some mb, w1) \<Rightarrow> respond (Fn None [VBool True]) w1))))"

subsection \<open>Observations on a trace\<close>


fun is_acquire :: "event \<Rightarrow> bool" where
  "is_acquire (AcquireLock r) = True"
| "is_acquire ev = False"

fun is_release :: "event \<Rightarrow> bool" where
  "is_release (ReleaseLock l) = True"
| "is_release ev = False"

fun is_fire :: "event \<Rightarrow> bool" where
  "is_fire (Fire a) = True"
| "is_fire ev = False"

text \<open>The rows whose \<^verbatim>\<open>deleteOne\<close> reported \<^verbatim>\<open>deletedCount === 1\<close>.\<close>

fun deleted_once :: "event list \<Rightarrow> message list" where
  "deleted_once [] = []"
| "deleted_once (DeleteOne m (Inr n) # evs) =
     (if n = Some 1 then m # deleted_once evs else deleted_once evs)"
| "deleted_once (ev # evs) = deleted_once evs"

text \<open>The calls of \<^verbatim>\<open>deleteMany\<close>: attachment ids and magic.\<close>

fun gc_calls :: "event list \<Rightarrow> (string list \<times> string) list" where
  "gc_calls [] = []"
| "gc_calls (DeleteMany ids mg # evs) = (ids, mg) # gc_calls evs"
| "gc_calls (ev # evs) = gc_calls evs"

fun write_uid :: "imap_write \<Rightarrow> nat" where
  "write_uid (Response c u) = u"
| "write_uid (Raw s) = 0"

text \<open>The rows \<^verbatim>\<open>deleteOne\<close> was called for, whatever the outcome.\<close>

fun deleteOne_calls :: "event list \<Rightarrow> message list" where
  "deleteOne_calls [] = []"
| "deleteOne_calls (DeleteOne m r # evs) = m # deleteOne_calls evs"
| "deleteOne_calls (ev # evs) = deleteOne_calls evs"


text \<open>
  The calls of \<^verbatim>\<open>acquireLock\<close> a backend EXPUNGE makes: one, once the session is
  refreshed and the mailbox is found, none otherwise.
\<close>

definition acquisitions :: "env \<Rightarrow> session \<Rightarrow> string \<Rightarrow> world \<Rightarrow> event list" where
  "acquisitions env ses mailboxId w =
     (case refreshSession env ses ''EXPUNGE'' of
        Inl e \<Rightarrow> []
      | Inr ses' \<Rightarrow>
          (case findOne_fails env of
             Some e \<Rightarrow> []
           | None \<Rightarrow>
               (case findOne w mailboxId of
                  None \<Rightarrow> []
                | Some mb \<Rightarrow> [AcquireLock (acquireLock env)])))"

subsection \<open>Which error leaves the loop, and how an error is reported\<close>

text \<open>
  The calls of the loop body that are not wrapped in a try block of their own are
  \<^verbatim>\<open>convertResult\<close> and \<^verbatim>\<open>Messages.deleteOne\<close>; \<open>thrown_by\<close> is what they throw
  for one row, \<open>first_thrown\<close> the first such error in the order of the rows, and
  \<open>processing_error\<close> the first error of the select statement and the loop.
\<close>

definition thrown_by :: "env \<Rightarrow> message \<Rightarrow> js_error option" where
  "thrown_by env m =
     (case convertResult_fails env m of Some e \<Rightarrow> Some e | None \<Rightarrow> deleteOne_fails env m)"

fun first_thrown :: "env \<Rightarrow> message list \<Rightarrow> js_error option" where
  "first_thrown env [] = None"
| "first_thrown env (m # ms) =
     (case thrown_by env m of Some e \<Rightarrow> Some e | None \<Rightarrow> first_thrown env ms)"

definition processing_error ::
  "env \<Rightarrow> server \<Rightarrow> session \<Rightarrow> mailbox \<Rightarrow> expunge_update \<Rightarrow> world \<Rightarrow> js_error option" where
  "processing_error env self ses mb upd w =
     (case select_error env self ses of
        Some e \<Rightarrow> Some e
      | None \<Rightarrow> first_thrown env (select_messages env mb upd w))"

text \<open>
  The rows the loop body handles to its end are those before the first row for which
  something is thrown; \<^verbatim>\<open>deleteOne\<close> is called for these and also for the row that
  stops the loop, unless it is \<^verbatim>\<open>convertResult\<close> that throws for that row.
\<close>

definition handled :: "env \<Rightarrow> message list \<Rightarrow> message list" where
  "handled env ms = takeWhile (\<lambda>m. thrown_by env m = None) ms"

fun deleteOne_reached :: "env \<Rightarrow> message list \<Rightarrow> message list" where
  "deleteOne_reached env [] = []"
| "deleteOne_reached env (m # ms) =
     (case convertResult_fails env m of
        Some e \<Rightarrow> []
      | None \<Rightarrow>
          (case deleteOne_fails env m of
             Some e \<Rightarrow> [m]
           | None \<Rightarrow> m # deleteOne_reached env ms))"

text \<open>
  The call of the callback for an error: the response code alone when the error
  carries one, the refined error otherwise.
\<close>

definition error_reply :: "env \<Rightarrow> js_error \<Rightarrow> callback" where
  "error_reply env err =
     (if has_imapResponse err
      then Fn None [VStr (case imapResponse err of Some code \<Rightarrow> code | None \<Rightarrow> [])]
      else Fn (Some (refineAndLogError env err)) [])"

subsection \<open>A sample account\<close>

definition quiet_env :: env where
  "quiet_env =
     \<lparr>refreshSession = (\<lambda>s c. Inr s),
      findOne_fails = None,
      findOneAndUpdate_fails = None,
      translate = (\<lambda>k l. k),
      checkRangeQuery = (\<lambda>us u. u \<in> set us),
      acquireLock = Inr \<lparr>lock_id = ''a1'', lock_success = True\<rparr>,
      select_fails = None,
      convertResult_fails = (\<lambda>m. None),
      deleteOne_fails = (\<lambda>m. None),
      deleteOne_reports = (\<lambda>m. Some 1),
      deleteMany_fails = (\<lambda>m. None),
      addEntries_fails = (\<lambda>m. None),
      fire_fails = (\<lambda>m. None),
      releaseLock_fails = None,
      size_fails = None,
      refineAndLogError = (\<lambda>e. e),
      rpc_expunge = Inr (VBool True, Some []),
      rpc_unsubscribe = Inr [VBool True]\<rparr>"

definition sqlite_server :: server where
  "sqlite_server = \<lparr>constructor_name = ''SQLite'', has_wsp = False\<rparr>"

definition imap_server :: server where
  "imap_server = \<lparr>constructor_name = ''IMAP'', has_wsp = True\<rparr>"

definition inbox :: mailbox where
  "inbox = \<lparr>mailbox_id = ''m1'', path = ''INBOX'', subscribed = True\<rparr>"

definition msg5 :: message where
  "msg5 = \<lparr>msg_id = ''x5'', msg_mailbox = ''m1'', uid = 5, undeleted = False,
           attachmentMap = Some [(''ATT00001'', ''h1'')], magic = ''k5'', thread = ''t1'',
           unseen = False, idate = 100\<rparr>"

definition msg7 :: message where
  "msg7 = \<lparr>msg_id = ''x7'', msg_mailbox = ''m1'', uid = 7, undeleted = True,
           attachmentMap = None, magic = ''k7'', thread = ''t2'',
           unseen = True, idate = 101\<rparr>"

definition msg9 :: message where
  "msg9 = \<lparr>msg_id = ''x9'', msg_mailbox = ''m1'', uid = 9, undeleted = False,
           attachmentMap = None, magic = ''k9'', thread = ''t3'',
           unseen = True, idate = 102\<rparr>"

definition account :: world where
  "account = \<lparr>mailboxes = [inbox], messages = [msg9, msg7, msg5], journal = [], trace = []\<rparr>"

definition all_update :: expunge_update where
  "all_update = \<lparr>isUid = False, update_messages = [], silent = False\<rparr>"

definition uid_update :: expunge_update where
  "uid_update = \<lparr>isUid = True, update_messages = [9], silent = False\<rparr>"

definition client :: session where
  "client = \<lparr>session_id = ''s1'', alias_id = ''a1'', user_locale = ''en'',
             remoteAddress = ''127.0.0.1'', selected_mailbox = Some ''m1'', db_wsp = False\<rparr>"

definition nonexistent_error :: js_error where
  "nonexistent_error = IMAPError ''Mailbox does not exist'' ''NONEXISTENT''"


text \<open>The same collaborators, except that \<^verbatim>\<open>deleteOne\<close> throws for the row with uid 9.\<close>

definition delete_down :: env where
  "delete_down =
     quiet_env\<lparr>deleteOne_fails :=
       (\<lambda>m. if uid m = 9 then Some (plain_error ''disk full'') else None)\<rparr>"


section \<open>Broadcasts of the backend to its websocket clients\<close>

text \<open>
  The object \<^verbatim>\<open>wss.broadcast\<close> hands to \<^verbatim>\<open>encoder.pack\<close>; the packed bytes
  stand for it.
\<close>

record 'p packet =
  pk_uuid :: string
  pk_session_id :: string
  pk_alias_id :: string
  pk_payload :: 'p

text \<open>
  The loop over \<^verbatim>\<open>this.wss.clients\<close>: it stops at the first client for which the uuid
  is already in the acknowledgment set, and calls \<^verbatim>\<open>client.send(packed)\<close> otherwise.
  The result lists the calls of \<^verbatim>\<open>send\<close>. A client of the server's set is past the
  connecting state, where \<^verbatim>\<open>send\<close> (package ws) queues the frame and does not throw.
\<close>

fun send_all :: "string \<Rightarrow> 'p packet \<Rightarrow> sqlite_state \<Rightarrow> 'c list \<Rightarrow> ('c \<times> 'p packet) list" where
  "send_all uuid packed s [] = []"
| "send_all uuid packed s (c # clients) =
     (if uuid \<in> uuidsReceived s then []
      else (c, packed) # send_all uuid packed s clients)"

text \<open>
  Modelled from the spec: the passing of one millisecond on the event loop. Every timer
  registered with \<^verbatim>\<open>setTimeout\<close> is one millisecond nearer, and the callbacks of those
  that are due run, in the order of their registration.
\<close>

definition elapse :: "sqlite_state \<Rightarrow> sqlite_state" where
  "elapse s =
     (let ts = map (\<lambda>t. (fst t - 1, snd t)) (timers s)
      in foldl timer_fires (s\<lparr>timers := ts\<rparr>) (filter (\<lambda>t. fst t = 0) ts))"

text \<open>
  The error \<^verbatim>\<open>pWaitFor\<close> rejects with when the time is up (a \<^verbatim>\<open>TimeoutError\<close> of
  package p-timeout).
\<close>

definition TimeoutError :: "nat \<Rightarrow> js_error" where
  "TimeoutError ms =
     plain_error (''Promise timed out after '' @ show_nat ms @ '' milliseconds'')"

text \<open>
  Modelled from the spec: \<^verbatim>\<open>pWaitFor(condition, { timeout, interval: 0 })\<close> (package
  p-wait-for) "waits, polling": the condition is tested at once and then again after every
  millisecond; the promise resolves at the first test that holds, and rejects with the
  timeout error when the test still fails \<^verbatim>\<open>timeout\<close> milliseconds after the call.
  Between two tests the \<^verbatim>\<open>message\<close> listener handles the frames that arrive during the
  millisecond (\<^verbatim>\<open>arrivals t\<close>, for the millisecond that starts \<^verbatim>\<open>t\<close> milliseconds
  after the call) and the millisecond passes. The first argument counts the milliseconds
  left. The result is the settlement (\<^verbatim>\<open>Inl\<close> a rejection), the time of the settlement
  in milliseconds after the call, and the state of the server then.
\<close>

fun poll :: "(sqlite_state \<Rightarrow> bool) \<Rightarrow> (nat \<Rightarrow> ws_data list) \<Rightarrow> nat \<Rightarrow> nat \<Rightarrow> nat
    \<Rightarrow> sqlite_state \<Rightarrow> (js_error + unit) \<times> nat \<times> sqlite_state" where
  "poll condition arrivals timeout 0 t s =
     (if condition s then (Inr (), t, s) else (Inl (TimeoutError timeout), t, s))"
| "poll condition arrivals timeout (Suc left) t s =
     (if condition s then (Inr (), t, s)
      else poll condition arrivals timeout left (Suc t)
             (elapse (foldl on_message s (arrivals t))))"

definition pWaitFor :: "(sqlite_state \<Rightarrow> bool) \<Rightarrow> nat \<Rightarrow> (nat \<Rightarrow> ws_data list)
    \<Rightarrow> sqlite_state \<Rightarrow> (js_error + unit) \<times> nat \<times> sqlite_state" where
  "pWaitFor condition timeout arrivals s = poll condition arrivals timeout timeout 0 s"

text \<open>
  What a call of \<^verbatim>\<open>wss.broadcast\<close> does: whether the promise it returns is fulfilled or
  rejected (and with what), the calls of \<^verbatim>\<open>client.send\<close>, the time at which the promise
  settles, and the state of the server then.
\<close>

record ('c, 'p) broadcast_run =
  outcome :: "js_error + unit"
  sent :: "('c \<times> 'p packet) list"
  settled_at :: nat
  server_state :: sqlite_state

text \<open>
  \<^verbatim>\<open>wss.broadcast(session, payload)\<close>. The uuid \<^verbatim>\<open>randomUUID()\<close> returns, the clients in
  the order of iteration and the frames arriving while the call waits are parameters;
  \<^verbatim>\<open>ms('5s')\<close> is 5000.
\<close>

definition broadcast :: "string \<Rightarrow> (nat \<Rightarrow> ws_data list) \<Rightarrow> 'c list \<Rightarrow> session \<Rightarrow> 'p
    \<Rightarrow> sqlite_state \<Rightarrow> ('c, 'p) broadcast_run" where
  "broadcast uuid arrivals clients ses payload s =
     (let packed = \<lparr>pk_uuid = uuid, pk_session_id = session_id ses,
                     pk_alias_id = alias_id ses, pk_payload = payload\<rparr>;
          sends = send_all uuid packed s clients
      in case pWaitFor (\<lambda>v. uuid \<in> uuidsReceived v) 5000 arrivals s of
           (Inr u, t, s') \<Rightarrow>
             \<lparr>outcome = Inr (), sent = sends, settled_at = t,
              server_state = s'\<lparr>uuidsReceived := uuidsReceived s' - {uuid}\<rparr>\<rparr>
         | (Inl err, t, s') \<Rightarrow>
             \<lparr>outcome = Inl (err\<lparr>isCodeBug := True\<rparr>), sent = sends, settled_at = t,
              server_state = s'\<rparr>)"

text \<open>
  A frame that the listener takes for the acknowledgment of the uuid: 36 long, with the
  uuid as its text.
\<close>

definition acks :: "string \<Rightarrow> ws_data \<Rightarrow> bool" where
  "acks uuid data = (\<not> js_falsy data \<and> data_length data = 36 \<and> data_toString data = uuid)"

text \<open>Before any acknowledgment: the uuid is not in the set and no timer is pending for it.\<close>

definition unheard :: "string \<Rightarrow> sqlite_state \<Rightarrow> bool" where
  "unheard uuid s = (uuid \<notin> uuidsReceived s \<and> uuid \<notin> snd ` set (timers s))"

text \<open>After one: the uuid is in the set, and no timer for it is due within a millisecond.\<close>

definition heard :: "string \<Rightarrow> sqlite_state \<Rightarrow> bool" where
  "heard uuid s = (uuid \<in> uuidsReceived s \<and> (\<forall>t \<in> set (timers s). snd t = uuid \<longrightarrow> 2 \<le> fst t))"

text \<open>Sample data: a uuid, its acknowledgment arriving during the third millisecond.\<close>

definition uuid1 :: string where
  "uuid1 = ''123e4567-e89b-42d3-a456-426614174000''"

definition ack_at_2 :: "nat \<Rightarrow> ws_data list" where
  "ack_at_2 t = (if t = 2 then [Buffer uuid1] else [])"

definition silence :: "nat \<Rightarrow> ws_data list" where
  "silence t = []"

section \<open>The websocket server: theorems\<close>

subsection \<open>Inbound frames\<close>

lemma falsy_length: "js_falsy d \<Longrightarrow> data_length d = 0"
  by (cases d) auto

text \<open>
  An empty Buffer is an object and passes the guard \<^verbatim>\<open>if (!data) return\<close>; its
  length is neither 4 nor 36, so it is handed to \<^verbatim>\<open>parsePayload\<close>: a frame of
  length 0 reaches the parser.
\<close>

theorem on_message_empty_buffer_reaches_parser:
  "data_length (Buffer []) = 0 \<and> parsed (on_message idle_server (Buffer [])) = [Buffer []]"
  by (simp add: on_message_def idle_server_def)

text \<open>
  C10 (as amended). For every inbound frame: a frame of length 4 equal to "ping" changes
  nothing but \<^verbatim>\<open>isAlive\<close>; a frame of length 36 is added to the acknowledgment set, a
  timer of 1000 ms is registered whose callback removes it again, and the frame is not
  handed to the parser; every other frame that is not falsy (every Buffer, the empty one
  included, and every non-empty string) is handed to the parser, and no other frame is.
\<close>

theorem on_message_dispatch:
  "(data_length d = 4 \<and> data_toString d = ''ping'' \<longrightarrow>
      on_message s d = s\<lparr>isAlive := True\<rparr>)
   \<and> (data_length d = 36 \<longrightarrow>
      uuidsReceived (on_message s d) = insert (data_toString d) (uuidsReceived s)
      \<and> timers (on_message s d) = timers s @ [(1000, data_toString d)]
      \<and> parsed (on_message s d) = parsed s
      \<and> data_toString d \<notin> uuidsReceived (timer_fires (on_message s d) (1000, data_toString d)))
   \<and> (parsed (on_message s d) =
        (if \<not> js_falsy d \<and> \<not> (data_length d = 4 \<and> data_toString d = ''ping'')
            \<and> data_length d \<noteq> 36
         then parsed s @ [d] else parsed s))"
proof -
  have ping: "data_length d = 4 \<and> data_toString d = ''ping'' \<longrightarrow>
      on_message s d = s\<lparr>isAlive := True\<rparr>"
    by (simp add: on_message_def Let_def)
  have nf: "data_length d = 36 \<Longrightarrow> \<not> js_falsy d"
    using falsy_length [of d] by auto
  have ack: "data_length d = 36 \<longrightarrow>
      uuidsReceived (on_message s d) = insert (data_toString d) (uuidsReceived s)
      \<and> timers (on_message s d) = timers s @ [(1000, data_toString d)]
      \<and> parsed (on_message s d) = parsed s
      \<and> data_toString d \<notin> uuidsReceived (timer_fires (on_message s d) (1000, data_toString d))"
    using nf by (simp add: on_message_def Let_def timer_fires_def)
  have fwd: "parsed (on_message s d) =
        (if \<not> js_falsy d \<and> \<not> (data_length d = 4 \<and> data_toString d = ''ping'')
            \<and> data_length d \<noteq> 36
         then parsed s @ [d] else parsed s)"
    by (simp add: on_message_def Let_def)
  from ping ack fwd show ?thesis by blast
qed

text \<open>The three kinds of frame on an idle server.\<close>

theorem on_message_dispatch_witness:
  "on_message idle_server (Buffer ''ping'') = idle_server\<lparr>isAlive := True\<rparr>
   \<and> uuidsReceived (on_message idle_server (Buffer uuid_frame)) = {uuid_frame}
   \<and> timers (on_message idle_server (Buffer uuid_frame)) = [(1000, uuid_frame)]
   \<and> parsed (on_message idle_server (Buffer uuid_frame)) = []
   \<and> parsed (on_message idle_server (Buffer ''hello'')) = [Buffer ''hello'']"
  using on_message_dispatch [of "Buffer ''ping''" idle_server]
        on_message_dispatch [of "Buffer uuid_frame" idle_server]
        on_message_dispatch [of "Buffer ''hello''" idle_server]
  by (simp add: uuid_frame_def idle_server_def)

subsection \<open>Upgrade requests\<close>

lemma show_nat_401: "show_nat 401 = ''401''"
  by (simp add: show_nat.simps digit_char_def)

lemma status_line_plain:
  "boom_output e = None \<Longrightarrow> status_line e = unauthorized_line"
  by (simp add: status_line_def unauthorized_line_def show_nat_401)

lemma status_line_Boom: "status_line (Boom_unauthorized m) = unauthorized_line"
  by (simp add: status_line_def unauthorized_line_def show_nat_401 Boom_unauthorized_def)

lemma authenticate_None:
  "authenticate env creds = None \<longleftrightarrow>
     (\<exists>c v. creds = Some c \<and> cred_name c \<noteq> [] \<and> decrypt env (cred_name c) = Inr v
            \<and> v \<in> set (API_SECRETS env))"
  by (auto simp: authenticate_def split: option.splits sum.splits)

lemma authenticate_Some_line:
  assumes "\<forall>n e. decrypt env n = Inl e \<longrightarrow> boom_output e = None"
    and "authenticate env creds = Some err"
  shows "status_line err = unauthorized_line"
  using assms
  by (auto simp: authenticate_def status_line_Boom status_line_plain
           split: option.splits sum.splits if_splits)

text \<open>
  C9. Provided the errors \<^verbatim>\<open>decrypt\<close> throws are plain errors (they carry no Boom
  \<^verbatim>\<open>output\<close>): an upgrade request is handed to \<^verbatim>\<open>handleUpgrade\<close> if and only if
  it presents credentials with a non-empty name that decrypts to a member of
  \<^verbatim>\<open>API_SECRETS\<close>; every other request gets the line "HTTP/1.1 401 Unauthorized"
  written to its socket, the socket is destroyed, and \<^verbatim>\<open>handleUpgrade\<close> is not called.
\<close>

theorem upgrade_accepted_iff_allowed:
  assumes "\<forall>n e. decrypt env n = Inl e \<longrightarrow> boom_output e = None"
  shows "on_upgrade env creds =
           (if \<exists>c v. creds = Some c \<and> cred_name c \<noteq> [] \<and> decrypt env (cred_name c) = Inr v
                      \<and> v \<in> set (API_SECRETS env)
            then [SocketOnError, SocketRemoveErrorListener, HandleUpgrade]
            else [SocketOnError, SocketWrite unauthorized_line, SocketDestroy])"
proof (cases "authenticate env creds")
  case None
  then show ?thesis
    using authenticate_None [of env creds] by (simp add: on_upgrade_def)
next
  case (Some err)
  then show ?thesis
    using authenticate_None [of env creds] authenticate_Some_line [OF assms Some]
    by (simp add: on_upgrade_def)
qed

lemma demo_auth_plain: "\<forall>n e. decrypt demo_auth n = Inl e \<longrightarrow> boom_output e = None"
  by (simp add: demo_auth_def plain_error_def)

text \<open>An allowed name, a name that decrypts to a value off the list, and no credentials.\<close>

theorem upgrade_accepted_iff_allowed_witness:
  "on_upgrade demo_auth (Some \<lparr>cred_name = ''c1'', cred_pass = ''x''\<rparr>)
     = [SocketOnError, SocketRemoveErrorListener, HandleUpgrade]
   \<and> on_upgrade demo_auth (Some \<lparr>cred_name = ''c2'', cred_pass = ''x''\<rparr>)
     = [SocketOnError, SocketWrite unauthorized_line, SocketDestroy]
   \<and> on_upgrade demo_auth None
     = [SocketOnError, SocketWrite unauthorized_line, SocketDestroy]"
  using upgrade_accepted_iff_allowed [OF demo_auth_plain, of "Some \<lparr>cred_name = ''c1'', cred_pass = ''x''\<rparr>"]
        upgrade_accepted_iff_allowed [OF demo_auth_plain, of "Some \<lparr>cred_name = ''c2'', cred_pass = ''x''\<rparr>"]
        upgrade_accepted_iff_allowed [OF demo_auth_plain, of None]
  by (simp add: demo_auth_def)

subsection \<open>Broadcast and its acknowledgment\<close>

lemma on_message_acks:
  "uuid \<in> uuidsReceived (on_message s d) \<longleftrightarrow> uuid \<in> uuidsReceived s \<or> acks uuid d"
  by (auto simp: on_message_def acks_def Let_def)

lemma on_message_timers:
  "set (timers (on_message s d)) \<subseteq> set (timers s) \<union> {(1000, data_toString d)}"
  by (auto simp: on_message_def Let_def)

lemma on_message_timers_other:
  "\<not> acks uuid d \<Longrightarrow> uuid \<in> snd ` set (timers (on_message s d)) \<Longrightarrow> uuid \<in> snd ` set (timers s)"
  by (auto simp: on_message_def acks_def Let_def split: if_splits)

lemma unheard_on_message: "unheard uuid s \<Longrightarrow> \<not> acks uuid d \<Longrightarrow> unheard uuid (on_message s d)"
  using on_message_timers_other [of uuid d s]
  by (auto simp: unheard_def on_message_acks)

lemma unheard_then_heard: "unheard uuid s \<Longrightarrow> acks uuid d \<Longrightarrow> heard uuid (on_message s d)"
  by (auto simp: unheard_def heard_def on_message_def acks_def Let_def image_iff)

lemma heard_on_message: "heard uuid s \<Longrightarrow> heard uuid (on_message s d)"
  by (auto simp: heard_def on_message_def Let_def)

lemma heard_frames: "heard uuid s \<Longrightarrow> heard uuid (foldl on_message s ds)"
  by (induction ds arbitrary: s) (simp_all add: heard_on_message)

lemma unheard_frames:
  "unheard uuid s \<Longrightarrow> \<not> list_ex (acks uuid) ds \<Longrightarrow> unheard uuid (foldl on_message s ds)"
  by (induction ds arbitrary: s) (simp_all add: unheard_on_message)

lemma heard_after_frames:
  "unheard uuid s \<Longrightarrow> list_ex (acks uuid) ds \<Longrightarrow> heard uuid (foldl on_message s ds)"
proof (induction ds arbitrary: s)
  case Nil
  then show ?case by simp
next
  case (Cons d ds)
  show ?case
  proof (cases "acks uuid d")
    case True
    then show ?thesis using Cons.prems(1) by (simp add: unheard_then_heard heard_frames)
  next
    case False
    then show ?thesis using Cons by (simp add: unheard_on_message)
  qed
qed

lemma timers_fired:
  "uuidsReceived (foldl timer_fires s due) = uuidsReceived s - snd ` set due
   \<and> set (timers (foldl timer_fires s due)) \<subseteq> set (timers s)"
proof (induction due arbitrary: s)
  case Nil
  show ?case by simp
next
  case (Cons t due)
  have "set (timers (timer_fires s t)) \<subseteq> set (timers s)"
    using set_remove1_subset [of t "timers s"] by (simp add: timer_fires_def)
  then show ?case
    using Cons [of "timer_fires s t"] by (auto simp: timer_fires_def)
qed

lemma elapse_uuids:
  "uuidsReceived (elapse s) = uuidsReceived s - snd ` {t \<in> set (timers s). fst t \<le> 1}"
proof -
  have "snd ` set (filter (\<lambda>t. fst t = 0) (map (\<lambda>t. (fst t - 1, snd t)) (timers s)))
      = snd ` {t \<in> set (timers s). fst t \<le> 1}"
    by (force simp: image_iff)
  then show ?thesis
    by (simp add: elapse_def Let_def timers_fired)
qed

lemma elapse_timers:
  "set (timers (elapse s)) \<subseteq> (\<lambda>t. (fst t - 1, snd t)) ` set (timers s)"
  using timers_fired [of "s\<lparr>timers := map (\<lambda>t. (fst t - 1, snd t)) (timers s)\<rparr>"]
  by (auto simp: elapse_def Let_def)

lemma unheard_elapse: "unheard uuid s \<Longrightarrow> unheard uuid (elapse s)"
  using elapse_timers [of s] by (auto simp: unheard_def elapse_uuids)

lemma heard_elapse: "heard uuid s \<Longrightarrow> uuid \<in> uuidsReceived (elapse s)"
  by (auto simp: heard_def elapse_uuids)

lemma send_all_fresh:
  "uuid \<notin> uuidsReceived s \<Longrightarrow> send_all uuid packed s clients = map (\<lambda>c. (c, packed)) clients"
  by (induction clients) simp_all

text \<open>The wait when no acknowledgment arrives in the time left.\<close>

lemma poll_times_out:
  assumes "unheard uuid s"
    and "\<forall>b. t \<le> b \<and> b < t + left \<longrightarrow> \<not> list_ex (acks uuid) (arrivals b)"
  shows "fst (poll (\<lambda>v. uuid \<in> uuidsReceived v) arrivals timeout left t s) = Inl (TimeoutError timeout)
       \<and> fst (snd (poll (\<lambda>v. uuid \<in> uuidsReceived v) arrivals timeout left t s)) = t + left"
  using assms
proof (induction left arbitrary: t s)
  case 0
  then show ?case by (simp add: unheard_def)
next
  case (Suc left)
  have here: "\<not> list_ex (acks uuid) (arrivals t)" using Suc.prems(2) by simp
  have next_state: "unheard uuid (elapse (foldl on_message s (arrivals t)))"
    using Suc.prems(1) here by (simp add: unheard_frames unheard_elapse)
  have later: "\<forall>b. Suc t \<le> b \<and> b < Suc t + left \<longrightarrow> \<not> list_ex (acks uuid) (arrivals b)"
    using Suc.prems(2) by simp
  show ?case
    using Suc.IH [OF next_state later] Suc.prems(1) by (simp add: unheard_def)
qed

text \<open>The wait when the first acknowledgment arrives during millisecond \<open>a\<close>.\<close>

lemma poll_resolves:
  assumes "unheard uuid s"
    and "t \<le> a" and "a < t + left"
    and "list_ex (acks uuid) (arrivals a)"
    and "\<forall>b. t \<le> b \<and> b < a \<longrightarrow> \<not> list_ex (acks uuid) (arrivals b)"
  shows "fst (poll (\<lambda>v. uuid \<in> uuidsReceived v) arrivals timeout left t s) = Inr ()
       \<and> fst (snd (poll (\<lambda>v. uuid \<in> uuidsReceived v) arrivals timeout left t s)) = Suc a"
  using assms
proof (induction left arbitrary: t s)
  case 0
  then show ?case by simp
next
  case (Suc left)
  let ?s' = "elapse (foldl on_message s (arrivals t))"
  have not_yet: "uuid \<notin> uuidsReceived s" using Suc.prems(1) by (simp add: unheard_def)
  show ?case
  proof (cases "t = a")
    case True
    have "uuid \<in> uuidsReceived ?s'"
      using Suc.prems(1,4) True by (simp add: heard_after_frames heard_elapse)
    then show ?thesis
      using not_yet True by (cases left) simp_all
  next
    case False
    then have quiet: "\<not> list_ex (acks uuid) (arrivals t)" and "Suc t \<le> a" and "a < Suc t + left"
      using Suc.prems(2,3,5) by auto
    moreover have "unheard uuid ?s'"
      using Suc.prems(1) quiet by (simp add: unheard_frames unheard_elapse)
    moreover have "\<forall>b. Suc t \<le> b \<and> b < a \<longrightarrow> \<not> list_ex (acks uuid) (arrivals b)"
      using Suc.prems(5) by simp
    ultimately show ?thesis
      using Suc.IH [of ?s' "Suc t"] Suc.prems(4) not_yet by simp
  qed
qed

lemma broadcast_fields:
  "sent (broadcast uuid arrivals clients ses payload s)
     = send_all uuid \<lparr>pk_uuid = uuid, pk_session_id = session_id ses,
                      pk_alias_id = alias_id ses, pk_payload = payload\<rparr> s clients"
  "settled_at (broadcast uuid arrivals clients ses payload s)
     = fst (snd (pWaitFor (\<lambda>v. uuid \<in> uuidsReceived v) 5000 arrivals s))"
  "fst (pWaitFor (\<lambda>v. uuid \<in> uuidsReceived v) 5000 arrivals s) = Inr () \<Longrightarrow>
     outcome (broadcast uuid arrivals clients ses payload s) = Inr ()
     \<and> uuid \<notin> uuidsReceived (server_state (broadcast uuid arrivals clients ses payload s))"
  "fst (pWaitFor (\<lambda>v. uuid \<in> uuidsReceived v) 5000 arrivals s) = Inl e \<Longrightarrow>
     outcome (broadcast uuid arrivals clients ses payload s) = Inl (e\<lparr>isCodeBug := True\<rparr>)"
  by (auto simp: broadcast_def Let_def split: prod.splits sum.splits)

text \<open>
  C5. For a uuid that is new to the server (not in the acknowledgment set and with no
  timer pending for it, as \<^verbatim>\<open>randomUUID\<close> gives): \<^verbatim>\<open>wss.broadcast\<close> sends the packed
  uuid, session id, alias id and payload once to every client, in the order of the set,
  and then polls the acknowledgment set for up to 5000 milliseconds. When the first frame
  acknowledging the uuid arrives during millisecond \<open>a\<close> of the wait, with \<open>a\<close> below
  5000, the promise is fulfilled at the next poll, \<open>a + 1\<close> milliseconds after the call,
  and the uuid is no longer in the set; so an acknowledgment within the bound fulfils the
  promise no later than the bound. When no such frame arrives during the 5000
  milliseconds, whatever the clients, the promise is rejected with the timeout error of
  \<^verbatim>\<open>pWaitFor\<close>, marked \<^verbatim>\<open>isCodeBug\<close>, exactly 5000 milliseconds after the call. It is
  never rejected at another time.
\<close>

theorem broadcast_waits_for_acknowledgment:
  assumes "uuid \<notin> uuidsReceived s"
    and "uuid \<notin> snd ` set (timers s)"
  shows "sent (broadcast uuid arrivals clients ses payload s)
           = map (\<lambda>c. (c, \<lparr>pk_uuid = uuid, pk_session_id = session_id ses,
                            pk_alias_id = alias_id ses, pk_payload = payload\<rparr>)) clients
         \<and> (\<forall>a. a < 5000 \<and> list_ex (acks uuid) (arrivals a)
                 \<and> (\<forall>b<a. \<not> list_ex (acks uuid) (arrivals b))
               \<longrightarrow> outcome (broadcast uuid arrivals clients ses payload s) = Inr ()
                 \<and> settled_at (broadcast uuid arrivals clients ses payload s) = Suc a
                 \<and> uuid \<notin> uuidsReceived (server_state (broadcast uuid arrivals clients ses payload s)))
         \<and> ((\<exists>a<5000. list_ex (acks uuid) (arrivals a))
               \<longrightarrow> outcome (broadcast uuid arrivals clients ses payload s) = Inr ()
                 \<and> settled_at (broadcast uuid arrivals clients ses payload s) \<le> 5000
                 \<and> uuid \<notin> uuidsReceived (server_state (broadcast uuid arrivals clients ses payload s)))
         \<and> ((\<forall>a<5000. \<not> list_ex (acks uuid) (arrivals a))
               \<longrightarrow> outcome (broadcast uuid arrivals clients ses payload s)
                     = Inl ((TimeoutError 5000)\<lparr>isCodeBug := True\<rparr>)
                 \<and> settled_at (broadcast uuid arrivals clients ses payload s) = 5000)
         \<and> (\<forall>e. outcome (broadcast uuid arrivals clients ses payload s) = Inl e
               \<longrightarrow> settled_at (broadcast uuid arrivals clients ses payload s) = 5000
                 \<and> isCodeBug e)"
proof -
  let ?R = "broadcast uuid arrivals clients ses payload s"
  let ?W = "pWaitFor (\<lambda>v. uuid \<in> uuidsReceived v) 5000 arrivals s"
  let ?acked = "\<lambda>a. list_ex (acks uuid) (arrivals a)"
  have new: "unheard uuid s" using assms by (simp add: unheard_def)
  have sends: "sent ?R = map (\<lambda>c. (c, \<lparr>pk_uuid = uuid, pk_session_id = session_id ses,
                            pk_alias_id = alias_id ses, pk_payload = payload\<rparr>)) clients"
    using assms(1) by (simp add: broadcast_fields(1) send_all_fresh)
  have first: "outcome ?R = Inr () \<and> settled_at ?R = Suc a
      \<and> uuid \<notin> uuidsReceived (server_state ?R)"
    if "a < 5000" "?acked a" "\<forall>b<a. \<not> ?acked b" for a
  proof -
    have "fst ?W = Inr () \<and> fst (snd ?W) = Suc a"
      unfolding pWaitFor_def
      using poll_resolves [OF new, of 0 a 5000 arrivals 5000] that by simp
    then show ?thesis
      using broadcast_fields(3) [of uuid arrivals s clients ses payload]
      by (simp add: broadcast_fields(2))
  qed
  have some: "outcome ?R = Inr () \<and> settled_at ?R \<le> 5000
      \<and> uuid \<notin> uuidsReceived (server_state ?R)"
    if "\<exists>a<5000. ?acked a"
  proof -
    from that obtain a where a: "a < 5000 \<and> ?acked a" "\<forall>b<a. \<not> (b < 5000 \<and> ?acked b)"
      using exists_least_iff [of "\<lambda>a. a < 5000 \<and> ?acked a"] by blast
    then have "\<forall>b<a. \<not> ?acked b" by auto
    then show ?thesis using first [of a] a(1) by simp
  qed
  have none: "outcome ?R = Inl ((TimeoutError 5000)\<lparr>isCodeBug := True\<rparr>) \<and> settled_at ?R = 5000"
    if "\<forall>a<5000. \<not> ?acked a"
  proof -
    have "fst ?W = Inl (TimeoutError 5000) \<and> fst (snd ?W) = 5000"
      unfolding pWaitFor_def
      using poll_times_out [OF new, of 0 5000 arrivals 5000] that by simp
    then show ?thesis
      using broadcast_fields(4) [of uuid arrivals s "TimeoutError 5000" clients ses payload]
      by (simp add: broadcast_fields(2))
  qed
  have rejected: "settled_at ?R = 5000 \<and> isCodeBug e" if "outcome ?R = Inl e" for e
  proof (cases "\<exists>a<5000. ?acked a")
    case True
    then show ?thesis using some that by simp
  next
    case False
    then show ?thesis using none that by auto
  qed
  show ?thesis
    using sends first some none rejected by blast
qed

text \<open>
  An idle server with two clients, the acknowledgment arriving during the third
  millisecond: both clients are sent the packet and the promise is fulfilled after 3
  milliseconds. The same server with no client and no frame: rejected after 5000.
\<close>

theorem broadcast_waits_for_acknowledgment_witness:
  "uuid1 \<notin> uuidsReceived idle_server \<and> uuid1 \<notin> snd ` set (timers idle_server)
   \<and> sent (broadcast uuid1 ack_at_2 [1, 2 :: nat] client ''EXISTS'' idle_server)
       = [(1, \<lparr>pk_uuid = uuid1, pk_session_id = ''s1'', pk_alias_id = ''a1'', pk_payload = ''EXISTS''\<rparr>),
          (2, \<lparr>pk_uuid = uuid1, pk_session_id = ''s1'', pk_alias_id = ''a1'', pk_payload = ''EXISTS''\<rparr>)]
   \<and> list_ex (acks uuid1) (ack_at_2 2)
   \<and> outcome (broadcast uuid1 ack_at_2 [1, 2 :: nat] client ''EXISTS'' idle_server) = Inr ()
   \<and> settled_at (broadcast uuid1 ack_at_2 [1, 2 :: nat] client ''EXISTS'' idle_server) = 3
   \<and> uuid1 \<notin> uuidsReceived (server_state (broadcast uuid1 ack_at_2 [1, 2 :: nat] client ''EXISTS'' idle_server))
   \<and> sent (broadcast uuid1 silence ([] :: nat list) client ''EXISTS'' idle_server) = []
   \<and> outcome (broadcast uuid1 silence ([] :: nat list) client ''EXISTS'' idle_server)
       = Inl ((TimeoutError 5000)\<lparr>isCodeBug := True\<rparr>)
   \<and> settled_at (broadcast uuid1 silence ([] :: nat list) client ''EXISTS'' idle_server) = 5000"
proof -
  have a: "uuid1 \<notin> uuidsReceived idle_server" by (simp add: idle_server_def)
  have b: "uuid1 \<notin> snd ` set (timers idle_server)" by (simp add: idle_server_def)
  have c: "list_ex (acks uuid1) (ack_at_2 2)"
    by (simp add: ack_at_2_def acks_def uuid1_def)
  have d: "\<forall>b<2. \<not> list_ex (acks uuid1) (ack_at_2 b)" by (simp add: ack_at_2_def)
  have e: "\<forall>a<5000. \<not> list_ex (acks uuid1) (silence a)" by (simp add: silence_def)
  note echoed = broadcast_waits_for_acknowledgment [OF a b, where arrivals=ack_at_2
      and clients="[1, 2 :: nat]" and ses=client and payload="''EXISTS''"]
  note unanswered = broadcast_waits_for_acknowledgment [OF a b, where arrivals=silence
      and clients="[] :: nat list" and ses=client and payload="''EXISTS''"]
  have f: "sent (broadcast uuid1 ack_at_2 [1, 2 :: nat] client ''EXISTS'' idle_server)
       = [(1, \<lparr>pk_uuid = uuid1, pk_session_id = ''s1'', pk_alias_id = ''a1'', pk_payload = ''EXISTS''\<rparr>),
          (2, \<lparr>pk_uuid = uuid1, pk_session_id = ''s1'', pk_alias_id = ''a1'', pk_payload = ''EXISTS''\<rparr>)]"
    using echoed [THEN conjunct1] by (simp add: client_def)
  have "(2 :: nat) < 5000 \<and> list_ex (acks uuid1) (ack_at_2 2)
      \<and> (\<forall>b<2. \<not> list_ex (acks uuid1) (ack_at_2 b))"
    using c d by simp
  then have g: "outcome (broadcast uuid1 ack_at_2 [1, 2 :: nat] client ''EXISTS'' idle_server) = Inr ()
      \<and> settled_at (broadcast uuid1 ack_at_2 [1, 2 :: nat] client ''EXISTS'' idle_server) = Suc 2
      \<and> uuid1 \<notin> uuidsReceived (server_state (broadcast uuid1 ack_at_2 [1, 2 :: nat] client ''EXISTS'' idle_server))"
    by (rule echoed [THEN conjunct2, THEN conjunct1, THEN spec, THEN mp])
  have h: "sent (broadcast uuid1 silence ([] :: nat list) client ''EXISTS'' idle_server) = []"
    using unanswered [THEN conjunct1] by simp
  have i: "outcome (broadcast uuid1 silence ([] :: nat list) client ''EXISTS'' idle_server)
        = Inl ((TimeoutError 5000)\<lparr>isCodeBug := True\<rparr>)
      \<and> settled_at (broadcast uuid1 silence ([] :: nat list) client ''EXISTS'' idle_server) = 5000"
    using e
    by (rule unanswered [THEN conjunct2, THEN conjunct2, THEN conjunct2, THEN conjunct1, THEN mp])
  have three: "Suc 2 = 3" by simp
  from a b f c g h i show ?thesis unfolding three by (intro conjI) simp_all
qed

section \<open>The IMAP command handlers: theorems\<close>

subsection \<open>The front-end role\<close>

text \<open>
  C4. When the request to the backend fails with an error that carries the response code
  NONEXISTENT, \<^verbatim>\<open>onUnsubscribe\<close> calls \<^verbatim>\<open>fn(null, 'NONEXISTENT')\<close>, but
  \<^verbatim>\<open>onExpunge\<close> calls \<^verbatim>\<open>fn(err)\<close> with the error itself.
\<close>

theorem expunge_delegate_drops_response_code:
  "fst (onExpunge (quiet_env\<lparr>rpc_expunge := Inl nonexistent_error\<rparr>) imap_server ''m1''
          all_update client account)
     = Fn (Some nonexistent_error) []
   \<and> fst (onUnsubscribe (quiet_env\<lparr>rpc_unsubscribe := Inl nonexistent_error\<rparr>) imap_server
          ''INBOX'' client account)
     = Fn None [VStr ''NONEXISTENT'']"
  by (simp add: onExpunge_def expunge_delegate_def onUnsubscribe_def respond_def
      quiet_env_def imap_server_def nonexistent_error_def IMAPError_def)

subsection \<open>Basic facts about the trace and the tables\<close>

lemma emit_simps [simp]:
  "trace (emit ev w) = trace w @ [ev]"
  "messages (emit ev w) = messages w"
  "mailboxes (emit ev w) = mailboxes w"
  "journal (emit ev w) = journal w"
  by (simp_all add: emit_def)

lemma findOne_emit [simp]: "findOne (emit ev w) mid = findOne w mid"
  by (simp add: findOne_def)

lemma mailbox_missing_code [simp]:
  "imapResponse (mailbox_missing env ses) = Some ''NONEXISTENT''"
  by (simp add: mailbox_missing_def IMAPError_def)

subsection \<open>EXPUNGE on a mailbox that does not exist\<close>

text \<open>
  C8. On the backend, when the session refreshes and no mailbox has the id passed to
  EXPUNGE, the callback is called as \<^verbatim>\<open>fn(null, 'NONEXISTENT')\<close>; the only calls
  made are the refresh, the logging of the error and the callback, so no lock is acquired
  or released, and the message rows and the journal are unchanged.
\<close>

theorem expunge_unknown_mailbox:
  assumes "constructor_name self \<noteq> ''IMAP''"
    and "refreshSession env ses ''EXPUNGE'' = Inr ses'"
    and "findOne_fails env = None"
    and "findOne w mailboxId = None"
  shows "fst (onExpunge env self mailboxId upd ses w) = Fn None [VStr ''NONEXISTENT'']
         \<and> trace (snd (onExpunge env self mailboxId upd ses w))
             = trace w @ [RefreshSession ''EXPUNGE'', LogError (mailbox_missing env ses'),
                          Callback (Fn None [VStr ''NONEXISTENT''])]
         \<and> messages (snd (onExpunge env self mailboxId upd ses w)) = messages w
         \<and> journal (snd (onExpunge env self mailboxId upd ses w)) = journal w"
  using assms
  by (simp add: onExpunge_def expunge_backend_def expunge_catch_def respond_def Let_def)

text \<open>The sample account has no mailbox with id m2.\<close>

theorem expunge_unknown_mailbox_witness:
  "fst (onExpunge quiet_env sqlite_server ''m2'' all_update client account)
     = Fn None [VStr ''NONEXISTENT'']
   \<and> trace (snd (onExpunge quiet_env sqlite_server ''m2'' all_update client account))
     = [RefreshSession ''EXPUNGE'', LogError (mailbox_missing quiet_env client),
        Callback (Fn None [VStr ''NONEXISTENT''])]
   \<and> messages (snd (onExpunge quiet_env sqlite_server ''m2'' all_update client account))
     = [msg9, msg7, msg5]"
proof -
  have a: "constructor_name sqlite_server \<noteq> ''IMAP''" by (simp add: sqlite_server_def)
  have b: "refreshSession quiet_env client ''EXPUNGE'' = Inr client" by (simp add: quiet_env_def)
  have c: "findOne_fails quiet_env = None" by (simp add: quiet_env_def)
  have d: "findOne account ''m2'' = None" by (simp add: findOne_def account_def inbox_def)
  show ?thesis
    using expunge_unknown_mailbox [OF a b c d, of all_update] by (simp add: account_def)
qed

subsection \<open>UNSUBSCRIBE on the backend\<close>

lemma find_unsubscribe_first:
  "find (\<lambda>m. path m = p) ms = Some mb \<Longrightarrow>
     find (\<lambda>m. path m = p) (unsubscribe_first p ms) = Some (mb\<lparr>subscribed := False\<rparr>)"
  by (induction ms) (auto split: if_splits)

lemma unsubscribe_first_others:
  "filter (\<lambda>m. path m \<noteq> p) (unsubscribe_first p ms) = filter (\<lambda>m. path m \<noteq> p) ms"
  by (induction ms) auto

lemma unsubscribe_first_absent:
  "find (\<lambda>m. path m = p) ms = None \<Longrightarrow> unsubscribe_first p ms = ms"
  by (induction ms) (auto split: if_splits)

lemma unsubscribe_first_paths: "map path (unsubscribe_first p ms) = map path ms"
  by (induction ms) auto

text \<open>
  C7. On the backend (\<^verbatim>\<open>this.wsp\<close> not set), when the session refreshes and the update
  does not throw: if a mailbox has the path, the callback is called as
  \<^verbatim>\<open>fn(null, true)\<close> and afterwards the mailbox found under that path is the same one
  with \<^verbatim>\<open>subscribed\<close> false, the mailboxes under other paths being unchanged; if no
  mailbox has the path, the callback receives the error made with response code
  NONEXISTENT (passed through \<^verbatim>\<open>refineAndLogError\<close>) and the mailboxes are
  unchanged. In both cases the only calls made are the refresh and the callback, so no
  lock is acquired, and the journal and the message rows are unchanged.
\<close>

theorem unsubscribe_backend:
  assumes "\<not> has_wsp self"
    and "refreshSession env ses ''UNSUBSCRIBE'' = Inr ses'"
    and "findOneAndUpdate_fails env = None"
  shows "(\<forall>mb. find (\<lambda>m. path m = p) (mailboxes w) = Some mb \<longrightarrow>
            fst (onUnsubscribe env self p ses w) = Fn None [VBool True]
            \<and> find (\<lambda>m. path m = p) (mailboxes (snd (onUnsubscribe env self p ses w)))
                = Some (mb\<lparr>subscribed := False\<rparr>)
            \<and> filter (\<lambda>m. path m \<noteq> p) (mailboxes (snd (onUnsubscribe env self p ses w)))
                = filter (\<lambda>m. path m \<noteq> p) (mailboxes w)
            \<and> map path (mailboxes (snd (onUnsubscribe env self p ses w)))
                = map path (mailboxes w))
         \<and> (find (\<lambda>m. path m = p) (mailboxes w) = None \<longrightarrow>
            fst (onUnsubscribe env self p ses w)
              = Fn (Some (refineAndLogError env (mailbox_missing env ses'))) []
            \<and> imapResponse (mailbox_missing env ses') = Some ''NONEXISTENT''
            \<and> mailboxes (snd (onUnsubscribe env self p ses w)) = mailboxes w)
         \<and> trace (snd (onUnsubscribe env self p ses w))
             = trace w @ [RefreshSession ''UNSUBSCRIBE'',
                          Callback (fst (onUnsubscribe env self p ses w))]
         \<and> journal (snd (onUnsubscribe env self p ses w)) = journal w
         \<and> messages (snd (onUnsubscribe env self p ses w)) = messages w"
proof (cases "find (\<lambda>m. path m = p) (mailboxes w)")
  case None
  then show ?thesis
    using assms
    by (simp add: onUnsubscribe_def findOneAndUpdate_def respond_def pass_error_def Let_def
        unsubscribe_first_absent)
next
  case (Some mb)
  then show ?thesis
    using assms find_unsubscribe_first [OF Some]
    by (simp add: onUnsubscribe_def findOneAndUpdate_def respond_def Let_def
        unsubscribe_first_others unsubscribe_first_paths)
qed

text \<open>The sample account has INBOX and no Archive.\<close>

theorem unsubscribe_backend_witness:
  "fst (onUnsubscribe quiet_env sqlite_server ''INBOX'' client account) = Fn None [VBool True]
   \<and> mailboxes (snd (onUnsubscribe quiet_env sqlite_server ''INBOX'' client account))
       = [inbox\<lparr>subscribed := False\<rparr>]
   \<and> fst (onUnsubscribe quiet_env sqlite_server ''Archive'' client account)
       = Fn (Some (mailbox_missing quiet_env client)) []
   \<and> trace (snd (onUnsubscribe quiet_env sqlite_server ''Archive'' client account))
       = [RefreshSession ''UNSUBSCRIBE'', Callback (Fn (Some (mailbox_missing quiet_env client)) [])]
   \<and> journal (snd (onUnsubscribe quiet_env sqlite_server ''Archive'' client account)) = []"
proof -
  have a: "\<not> has_wsp sqlite_server" by (simp add: sqlite_server_def)
  have b: "refreshSession quiet_env client ''UNSUBSCRIBE'' = Inr client"
    by (simp add: quiet_env_def)
  have c: "findOneAndUpdate_fails quiet_env = None" by (simp add: quiet_env_def)
  have d: "find (\<lambda>m. path m = ''INBOX'') (mailboxes account) = Some inbox"
    by (simp add: account_def inbox_def)
  have e: "find (\<lambda>m. path m = ''Archive'') (mailboxes account) = None"
    by (simp add: account_def inbox_def)
  have f: "refineAndLogError quiet_env = (\<lambda>e. e)" by (simp add: quiet_env_def)
  have g: "mailboxes (snd (onUnsubscribe quiet_env sqlite_server ''INBOX'' client account))
       = [inbox\<lparr>subscribed := False\<rparr>]"
    by (simp add: onUnsubscribe_def findOneAndUpdate_def respond_def Let_def
        quiet_env_def sqlite_server_def account_def inbox_def)
  show ?thesis
    using unsubscribe_backend [OF a b c, of "''INBOX''" account]
          unsubscribe_backend [OF a b c, of "''Archive''" account] d e f g
    by (simp add: account_def)
qed

subsection \<open>The loop body and the loop\<close>

lemma deleteOne_simps [simp]:
  "fst (deleteOne env mb m w) = deleteOne_reports env m"
  "trace (snd (deleteOne env mb m w)) = trace w @ [DeleteOne m (Inr (deleteOne_reports env m))]"
  "mailboxes (snd (deleteOne env mb m w)) = mailboxes w"
  "journal (snd (deleteOne env mb m w)) = journal w"
  by (simp_all add: deleteOne_def Let_def)


lemma delete_attachments_simps [simp]:
  "messages (delete_attachments env m w) = messages w"
  "mailboxes (delete_attachments env m w) = mailboxes w"
  "journal (delete_attachments env m w) = journal w"
  by (simp_all add: delete_attachments_def Let_def split: option.splits)

lemma delete_attachments_trace:
  "trace (delete_attachments env m w) =
     trace w @ (if attachmentIds m = [] then []
                else DeleteMany (attachmentIds m) (magic m) #
                     (case deleteMany_fails env m of Some e \<Rightarrow> [LogFatal e] | None \<Rightarrow> []))"
  by (simp add: delete_attachments_def Let_def split: option.splits)

lemma write_expunged_simps [simp]:
  "messages (snd (write_expunged self ses mb upd m ws w)) = messages w"
  "mailboxes (snd (write_expunged self ses mb upd m ws w)) = mailboxes w"
  "journal (snd (write_expunged self ses mb upd m ws w)) = journal w"
  by (simp_all add: write_expunged_def)

lemma write_expunged_backend:
  "constructor_name self \<noteq> ''IMAP'' \<Longrightarrow>
     write_expunged self ses mb upd m ws w =
       (if \<not> silent upd \<or> mailbox_selected ses mb then ws @ [Response ''EXPUNGE'' (uid m)] else ws, w)"
  by (simp add: write_expunged_def)

lemma notify_simps [simp]:
  "messages (notify env ses mb m w) = messages w"
  "mailboxes (notify env ses mb m w) = mailboxes w"
  by (simp_all add: notify_def addEntries_def Let_def split: option.splits)


lemma notify_trace:
  "trace (notify env ses mb m w) =
     trace w @ (case addEntries_fails env m of
                  Some e \<Rightarrow> [LogFatal e]
                | None \<Rightarrow> Fire (alias_id ses) #
                    (case fire_fails env m of Some e \<Rightarrow> [LogFatal e] | None \<Rightarrow> []))"
  by (simp add: notify_def addEntries_def Let_def split: option.splits)

lemma release_lock_simps [simp]:
  "messages (release_lock env lk w) = messages w"
  "mailboxes (release_lock env lk w) = mailboxes w"
  "journal (release_lock env lk w) = journal w"
  "trace (release_lock env lk w) =
     trace w @ ReleaseLock lk # (case releaseLock_fails env of Some e \<Rightarrow> [LogFatal e] | None \<Rightarrow> [])"
  by (simp_all add: release_lock_def Let_def split: option.splits)

lemma request_size_simps [simp]:
  "messages (request_size env self w) = messages w"
  "mailboxes (request_size env self w) = mailboxes w"
  "journal (request_size env self w) = journal w"
  "trace (request_size env self w) =
     trace w @ (if has_wsp self
                then RpcRequest ''size'' # (case size_fails env of Some e \<Rightarrow> [LogFatal e] | None \<Rightarrow> [])
                else [LogFatal wsp_unset])"
  by (simp_all add: request_size_def Let_def split: option.splits)

lemma expunge_message_error:
  "fst (expunge_message env self ses mb upd r ws w) = thrown_by env r"
  by (simp add: expunge_message_def thrown_by_def Let_def split: option.splits prod.splits)

lemma expunge_loop_error:
  "fst (expunge_loop env self ses mb upd ms ws w) = first_thrown env ms"
proof (induction ms arbitrary: ws w)
  case Nil
  show ?case by simp
next
  case (Cons r rs)
  show ?case
    using expunge_message_error [of env self ses mb upd r ws w] Cons.IH
    by (auto split: prod.splits option.splits)
qed


lemma gc_calls_append [simp]: "gc_calls (a @ b) = gc_calls a @ gc_calls b"
  by (induction a rule: gc_calls.induct) auto

lemma deleted_once_append [simp]: "deleted_once (a @ b) = deleted_once a @ deleted_once b"
  by (induction a rule: deleted_once.induct) auto

lemma deleteOne_calls_append [simp]:
  "deleteOne_calls (a @ b) = deleteOne_calls a @ deleteOne_calls b"
  by (induction a rule: deleteOne_calls.induct) auto

lemma write_expunged_trace_obs [simp]:
  "gc_calls (trace (snd (write_expunged self ses mb upd m ws w))) = gc_calls (trace w)"
  "deleted_once (trace (snd (write_expunged self ses mb upd m ws w))) = deleted_once (trace w)"
  "deleteOne_calls (trace (snd (write_expunged self ses mb upd m ws w))) = deleteOne_calls (trace w)"
  "filter is_acquire (trace (snd (write_expunged self ses mb upd m ws w))) = filter is_acquire (trace w)"
  "filter is_release (trace (snd (write_expunged self ses mb upd m ws w))) = filter is_release (trace w)"
  "filter is_fire (trace (snd (write_expunged self ses mb upd m ws w))) = filter is_fire (trace w)"
  by (simp_all add: write_expunged_def)

lemma notify_trace_obs [simp]:
  "gc_calls (trace (notify env ses mb m w)) = gc_calls (trace w)"
  "deleted_once (trace (notify env ses mb m w)) = deleted_once (trace w)"
  "deleteOne_calls (trace (notify env ses mb m w)) = deleteOne_calls (trace w)"
  "filter is_acquire (trace (notify env ses mb m w)) = filter is_acquire (trace w)"
  "filter is_release (trace (notify env ses mb m w)) = filter is_release (trace w)"
  by (simp_all add: notify_trace split: option.splits)

lemma delete_attachments_trace_obs [simp]:
  "gc_calls (trace (delete_attachments env m w)) =
     gc_calls (trace w) @ (if attachmentIds m = [] then [] else [(attachmentIds m, magic m)])"
  "deleted_once (trace (delete_attachments env m w)) = deleted_once (trace w)"
  "deleteOne_calls (trace (delete_attachments env m w)) = deleteOne_calls (trace w)"
  "filter is_acquire (trace (delete_attachments env m w)) = filter is_acquire (trace w)"
  "filter is_release (trace (delete_attachments env m w)) = filter is_release (trace w)"
  "filter is_fire (trace (delete_attachments env m w)) = filter is_fire (trace w)"
  by (simp_all add: delete_attachments_trace split: option.splits)


lemma expunge_message_convert_fails:
  "convertResult_fails env r = Some e \<Longrightarrow>
     expunge_message env self ses mb upd r ws w = (Some e, ws, w)"
  by (simp add: expunge_message_def)

lemma expunge_message_deleteOne_fails:
  "convertResult_fails env r = None \<Longrightarrow> deleteOne_fails env r = Some e \<Longrightarrow>
     expunge_message env self ses mb upd r ws w = (Some e, ws, emit (DeleteOne r (Inl e)) w)"
  by (simp add: expunge_message_def)

lemma expunge_message_no_row:
  "convertResult_fails env r = None \<Longrightarrow> deleteOne_fails env r = None \<Longrightarrow>
   deleteOne_reports env r \<noteq> Some 1 \<Longrightarrow>
     expunge_message env self ses mb upd r ws w = (None, ws, snd (deleteOne env mb r w))"
  by (simp add: expunge_message_def Let_def case_prod_beta)

lemma expunge_message_deleted:
  "convertResult_fails env r = None \<Longrightarrow> deleteOne_fails env r = None \<Longrightarrow>
   deleteOne_reports env r = Some 1 \<Longrightarrow>
     expunge_message env self ses mb upd r ws w =
       (None,
        fst (write_expunged self ses mb upd r ws (delete_attachments env r (snd (deleteOne env mb r w)))),
        notify env ses mb r
          (snd (write_expunged self ses mb upd r ws
                  (delete_attachments env r (snd (deleteOne env mb r w))))))"
  by (simp add: expunge_message_def Let_def case_prod_beta)

lemma expunge_message_cases:
  obtains (convert) e where "convertResult_fails env r = Some e"
  | (delete) e where "convertResult_fails env r = None" "deleteOne_fails env r = Some e"
  | (no_row) "convertResult_fails env r = None" "deleteOne_fails env r = None"
      "deleteOne_reports env r \<noteq> Some 1"
  | (deleted) "convertResult_fails env r = None" "deleteOne_fails env r = None"
      "deleteOne_reports env r = Some 1"
  by (cases "convertResult_fails env r"; cases "deleteOne_fails env r") auto

lemma expunge_message_locks:
  "filter is_acquire (trace (snd (snd (expunge_message env self ses mb upd r ws w))))
     = filter is_acquire (trace w)"
  "filter is_release (trace (snd (snd (expunge_message env self ses mb upd r ws w))))
     = filter is_release (trace w)"
  by (cases rule: expunge_message_cases [where env=env and r=r];
      simp add: expunge_message_convert_fails expunge_message_deleteOne_fails
        expunge_message_no_row expunge_message_deleted)+


lemma expunge_message_calls:
  "deleteOne_calls (trace (snd (snd (expunge_message env self ses mb upd r ws w))))
     = deleteOne_calls (trace w) @ (if convertResult_fails env r = None then [r] else [])"
  by (cases rule: expunge_message_cases [where env=env and r=r])
     (simp_all add: expunge_message_convert_fails expunge_message_deleteOne_fails
        expunge_message_no_row expunge_message_deleted)

lemma expunge_message_writes:
  "fst (snd (expunge_message env self ses mb upd r ws w)) = ws
   \<or> fst (snd (expunge_message env self ses mb upd r ws w)) = ws @ [Response ''EXPUNGE'' (uid r)]"
  by (cases rule: expunge_message_cases [where env=env and r=r])
     (simp_all add: expunge_message_convert_fails expunge_message_deleteOne_fails
        expunge_message_no_row expunge_message_deleted write_expunged_def)

lemma expunge_message_mailboxes:
  "mailboxes (snd (snd (expunge_message env self ses mb upd r ws w))) = mailboxes w"
  by (cases rule: expunge_message_cases [where env=env and r=r])
     (simp_all add: expunge_message_convert_fails expunge_message_deleteOne_fails
        expunge_message_no_row expunge_message_deleted)


lemma expunge_message_extends:
  "\<exists>evs. trace (snd (snd (expunge_message env self ses mb upd r ws w))) = trace w @ evs"
  by (cases rule: expunge_message_cases [where env=env and r=r])
     (simp_all add: expunge_message_convert_fails expunge_message_deleteOne_fails
        expunge_message_no_row expunge_message_deleted write_expunged_def
        notify_trace delete_attachments_trace)

lemma expunge_loop_stop:
  "thrown_by env r = Some e \<Longrightarrow>
     expunge_loop env self ses mb upd (r # rs) ws w = expunge_message env self ses mb upd r ws w"
  using expunge_message_error [of env self ses mb upd r ws w]
  by (auto split: prod.splits option.splits)

lemma expunge_loop_next:
  "thrown_by env r = None \<Longrightarrow>
     expunge_loop env self ses mb upd (r # rs) ws w =
       expunge_loop env self ses mb upd rs
         (fst (snd (expunge_message env self ses mb upd r ws w)))
         (snd (snd (expunge_message env self ses mb upd r ws w)))"
  using expunge_message_error [of env self ses mb upd r ws w]
  by (auto split: prod.splits option.splits)

lemma expunge_loop_locks:
  "filter is_acquire (trace (snd (snd (expunge_loop env self ses mb upd ms ws w))))
     = filter is_acquire (trace w)
   \<and> filter is_release (trace (snd (snd (expunge_loop env self ses mb upd ms ws w))))
     = filter is_release (trace w)"
proof (induction ms arbitrary: ws w)
  case Nil
  show ?case by simp
next
  case (Cons r rs)
  show ?case
  proof (cases "thrown_by env r")
    case None
    show ?thesis
      unfolding expunge_loop_next [OF None]
      using Cons.IH by (simp add: expunge_message_locks)
  next
    case (Some e)
    show ?thesis
      unfolding expunge_loop_stop [OF Some] by (simp add: expunge_message_locks)
  qed
qed

lemma expunge_loop_extends:
  "\<exists>evs. trace (snd (snd (expunge_loop env self ses mb upd ms ws w))) = trace w @ evs"
proof (induction ms arbitrary: ws w)
  case Nil
  show ?case by simp
next
  case (Cons r rs)
  obtain evs where s: "trace (snd (snd (expunge_message env self ses mb upd r ws w))) = trace w @ evs"
    using expunge_message_extends by blast
  show ?case
  proof (cases "thrown_by env r")
    case None
    obtain evs' where "trace (snd (snd (expunge_loop env self ses mb upd rs
         (fst (snd (expunge_message env self ses mb upd r ws w)))
         (snd (snd (expunge_message env self ses mb upd r ws w)))))) =
        trace (snd (snd (expunge_message env self ses mb upd r ws w))) @ evs'"
      using Cons.IH by blast
    then show ?thesis
      unfolding expunge_loop_next [OF None] using s by simp
  next
    case (Some e)
    show ?thesis
      unfolding expunge_loop_stop [OF Some] using s by simp
  qed
qed

lemma expunge_loop_mailboxes:
  "mailboxes (snd (snd (expunge_loop env self ses mb upd ms ws w))) = mailboxes w"
proof (induction ms arbitrary: ws w)
  case Nil
  show ?case by simp
next
  case (Cons r rs)
  show ?case
  proof (cases "thrown_by env r")
    case None
    show ?thesis
      unfolding expunge_loop_next [OF None]
      using Cons.IH by (simp add: expunge_message_mailboxes)
  next
    case (Some e)
    show ?thesis
      unfolding expunge_loop_stop [OF Some] by (simp add: expunge_message_mailboxes)
  qed
qed


lemma expunge_loop_calls:
  "\<exists>k. deleteOne_calls (trace (snd (snd (expunge_loop env self ses mb upd ms ws w))))
          = deleteOne_calls (trace w) @ take k ms"
proof (induction ms arbitrary: ws w)
  case Nil
  show ?case by simp
next
  case (Cons r rs)
  show ?case
  proof (cases "thrown_by env r")
    case None
    then have c: "convertResult_fails env r = None"
      by (auto simp: thrown_by_def split: option.splits)
    obtain k where
      "deleteOne_calls (trace (snd (snd (expunge_loop env self ses mb upd rs
         (fst (snd (expunge_message env self ses mb upd r ws w)))
         (snd (snd (expunge_message env self ses mb upd r ws w)))))))
          = deleteOne_calls (trace (snd (snd (expunge_message env self ses mb upd r ws w)))) @ take k rs"
      using Cons.IH by blast
    then show ?thesis
      unfolding expunge_loop_next [OF None]
      by (intro exI [of _ "Suc k"]) (simp add: expunge_message_calls c)
  next
    case (Some e)
    show ?thesis
      unfolding expunge_loop_stop [OF Some]
      by (cases "convertResult_fails env r = None")
         (auto simp: expunge_message_calls intro: exI [of _ "Suc 0"] exI [of _ 0])
  qed
qed

lemma expunge_loop_writes:
  assumes "sorted (map uid ms)"
    and "sorted (map write_uid ws)"
    and "\<forall>x\<in>set ws. \<forall>m\<in>set ms. write_uid x \<le> uid m"
    and "set ws \<subseteq> A"
    and "(\<lambda>m. Response ''EXPUNGE'' (uid m)) ` set ms \<subseteq> A"
  shows "sorted (map write_uid (fst (snd (expunge_loop env self ses mb upd ms ws w))))
         \<and> set (fst (snd (expunge_loop env self ses mb upd ms ws w))) \<subseteq> A"
  using assms
proof (induction ms arbitrary: ws w)
  case Nil
  then show ?case by simp
next
  case (Cons r rs)
  let ?ws' = "fst (snd (expunge_message env self ses mb upd r ws w))"
  have alt: "?ws' = ws \<or> ?ws' = ws @ [Response ''EXPUNGE'' (uid r)]"
    by (rule expunge_message_writes)
  have s1: "sorted (map write_uid ?ws')"
    using alt Cons.prems(2,3) by (auto simp: sorted_append)
  have s2: "\<forall>x\<in>set ?ws'. \<forall>m\<in>set rs. write_uid x \<le> uid m"
    using alt Cons.prems(1,3) by auto
  have s3: "set ?ws' \<subseteq> A"
    using alt Cons.prems(4,5) by auto
  show ?case
  proof (cases "thrown_by env r")
    case None
    show ?thesis
      unfolding expunge_loop_next [OF None]
      using Cons.IH [OF _ s1 s2 s3] Cons.prems(1,5) by simp
  next
    case (Some e)
    show ?thesis
      unfolding expunge_loop_stop [OF Some] using s1 s3 by simp
  qed
qed

text \<open>The calls and writes of the loop, stated from what the collaborators do.\<close>

lemma handled_simps [simp]:
  "handled env [] = []"
  "thrown_by env m = None \<Longrightarrow> handled env (m # ms) = m # handled env ms"
  "thrown_by env m = Some e \<Longrightarrow> handled env (m # ms) = []"
  by (simp_all add: handled_def)

lemma deleteOne_reached_next:
  "thrown_by env m = None \<Longrightarrow> deleteOne_reached env (m # ms) = m # deleteOne_reached env ms"
  by (auto simp: thrown_by_def split: option.splits)

lemma deleteOne_reached_stop:
  "thrown_by env m = Some e \<Longrightarrow>
     deleteOne_reached env (m # ms) = (if convertResult_fails env m = None then [m] else [])"
  by (auto simp: thrown_by_def split: option.splits)

lemma nothing_thrown_all:
  "first_thrown env ms = None \<Longrightarrow> handled env ms = ms \<and> deleteOne_reached env ms = ms"
proof (induction ms)
  case Nil
  show ?case by simp
next
  case (Cons m ms)
  then have "thrown_by env m = None" and "first_thrown env ms = None"
    by (auto split: option.splits)
  then show ?case using Cons.IH by (simp add: deleteOne_reached_next del: deleteOne_reached.simps)
qed

text \<open>What one pass of the loop body adds, stated from the parameters.\<close>

lemma expunge_message_once:
  "deleted_once (trace (snd (snd (expunge_message env self ses mb upd r ws w))))
     = deleted_once (trace w)
       @ (if thrown_by env r = None \<and> deleteOne_reports env r = Some 1 then [r] else [])"
  by (cases rule: expunge_message_cases [where env=env and r=r])
     (simp_all add: expunge_message_convert_fails expunge_message_deleteOne_fails
        expunge_message_no_row expunge_message_deleted thrown_by_def)

lemma expunge_message_gc_exact:
  "gc_calls (trace (snd (snd (expunge_message env self ses mb upd r ws w))))
     = gc_calls (trace w)
       @ (if thrown_by env r = None \<and> deleteOne_reports env r = Some 1 \<and> attachmentIds r \<noteq> []
          then [(attachmentIds r, magic r)] else [])"
  by (cases rule: expunge_message_cases [where env=env and r=r])
     (simp_all add: expunge_message_convert_fails expunge_message_deleteOne_fails
        expunge_message_no_row expunge_message_deleted thrown_by_def)

lemma expunge_message_writes_exact:
  "constructor_name self \<noteq> ''IMAP'' \<Longrightarrow>
   fst (snd (expunge_message env self ses mb upd r ws w))
     = ws @ (if thrown_by env r = None \<and> deleteOne_reports env r = Some 1
                \<and> (\<not> silent upd \<or> mailbox_selected ses mb)
             then [Response ''EXPUNGE'' (uid r)] else [])"
  by (cases rule: expunge_message_cases [where env=env and r=r])
     (simp_all add: expunge_message_convert_fails expunge_message_deleteOne_fails
        expunge_message_no_row expunge_message_deleted thrown_by_def write_expunged_backend)

lemma expunge_loop_exact:
  "deleteOne_calls (trace (snd (snd (expunge_loop env self ses mb upd ms ws w))))
     = deleteOne_calls (trace w) @ deleteOne_reached env ms
   \<and> deleted_once (trace (snd (snd (expunge_loop env self ses mb upd ms ws w))))
     = deleted_once (trace w) @ filter (\<lambda>m. deleteOne_reports env m = Some 1) (handled env ms)
   \<and> gc_calls (trace (snd (snd (expunge_loop env self ses mb upd ms ws w))))
     = gc_calls (trace w)
       @ map (\<lambda>m. (attachmentIds m, magic m))
           (filter (\<lambda>m. deleteOne_reports env m = Some 1 \<and> attachmentIds m \<noteq> []) (handled env ms))
   \<and> (constructor_name self \<noteq> ''IMAP'' \<longrightarrow>
        fst (snd (expunge_loop env self ses mb upd ms ws w))
          = ws @ map (\<lambda>m. Response ''EXPUNGE'' (uid m))
                   (filter (\<lambda>m. deleteOne_reports env m = Some 1
                                \<and> (\<not> silent upd \<or> mailbox_selected ses mb)) (handled env ms)))"
proof (induction ms arbitrary: ws w)
  case Nil
  show ?case by simp
next
  case (Cons r rs)
  show ?case
  proof (cases "thrown_by env r")
    case None
    show ?thesis
      unfolding expunge_loop_next [OF None]
      using Cons.IH [of "fst (snd (expunge_message env self ses mb upd r ws w))"
          "snd (snd (expunge_message env self ses mb upd r ws w))"] None
      by (simp add: expunge_message_calls expunge_message_once expunge_message_gc_exact
          expunge_message_writes_exact deleteOne_reached_next thrown_by_def
          del: deleteOne_reached.simps split: option.splits)
  next
    case (Some e)
    show ?thesis
      unfolding expunge_loop_stop [OF Some]
      using Some
      by (simp add: expunge_message_calls expunge_message_once expunge_message_gc_exact
          expunge_message_writes_exact deleteOne_reached_stop
          del: deleteOne_reached.simps)
  qed
qed
subsection \<open>The select statement and the run under the lock\<close>

lemma select_messages_emit [simp]:
  "select_messages env mb upd (emit ev w) = select_messages env mb upd w"
  by (simp add: select_messages_def)

lemma send_statement_simps [simp]:
  "messages (send_statement self ses w) = messages w"
  "mailboxes (send_statement self ses w) = mailboxes w"
  "journal (send_statement self ses w) = journal w"
  "select_messages env mb upd (send_statement self ses w) = select_messages env mb upd w"
  "filter is_acquire (trace (send_statement self ses w)) = filter is_acquire (trace w)"
  "filter is_release (trace (send_statement self ses w)) = filter is_release (trace w)"
  "filter is_fire (trace (send_statement self ses w)) = filter is_fire (trace w)"
  "gc_calls (trace (send_statement self ses w)) = gc_calls (trace w)"
  "deleted_once (trace (send_statement self ses w)) = deleted_once (trace w)"
  "deleteOne_calls (trace (send_statement self ses w)) = deleteOne_calls (trace w)"
  by (simp_all add: send_statement_def)

lemma send_statement_extends:
  "\<exists>evs. trace (send_statement self ses w) = trace w @ evs"
  by (simp add: send_statement_def)

lemma select_messages_set:
  "set (select_messages env mb upd w) =
     {m \<in> set (messages w). msg_mailbox m = mailbox_id mb \<and> \<not> undeleted m \<and>
        (isUid upd \<longrightarrow> checkRangeQuery env (update_messages upd) (uid m))}"
  by (auto simp: select_messages_def expunge_condition_def)

lemma select_messages_sorted: "sorted (map uid (select_messages env mb upd w))"
  by (simp add: select_messages_def)

lemma expunge_locked_error:
  "fst (expunge_locked env self ses mb upd w) = processing_error env self ses mb upd w"
  by (simp add: expunge_locked_def processing_error_def Let_def expunge_loop_error
      split: option.splits)

lemma expunge_locked_extends:
  "\<exists>evs. trace (snd (snd (expunge_locked env self ses mb upd w))) = trace w @ evs"
proof -
  let ?w1 = "send_statement self ses w"
  obtain sent where sent: "trace ?w1 = trace w @ sent"
    using send_statement_extends by blast
  show ?thesis
  proof (cases "select_error env self ses")
    case (Some e)
    then show ?thesis using sent by (simp add: expunge_locked_def Let_def)
  next
    case None
    obtain evs where
      "trace (snd (snd (expunge_loop env self ses mb upd (select_messages env mb upd ?w1) [] ?w1)))
         = trace ?w1 @ evs"
      using expunge_loop_extends by blast
    then show ?thesis
      using None sent by (simp add: expunge_locked_def Let_def)
  qed
qed

lemma expunge_locked_locks:
  "filter is_acquire (trace (snd (snd (expunge_locked env self ses mb upd w))))
     = filter is_acquire (trace w)
   \<and> filter is_release (trace (snd (snd (expunge_locked env self ses mb upd w))))
     = filter is_release (trace w)"
proof (cases "select_error env self ses")
  case (Some e)
  then show ?thesis by (simp add: expunge_locked_def Let_def)
next
  case None
  let ?w1 = "send_statement self ses w"
  show ?thesis
    using None
      expunge_loop_locks [of env self ses mb upd "select_messages env mb upd ?w1" "[]" ?w1]
    by (simp add: expunge_locked_def Let_def)
qed

lemma expunge_locked_mailboxes:
  "mailboxes (snd (snd (expunge_locked env self ses mb upd w))) = mailboxes w"
  by (simp add: expunge_locked_def Let_def expunge_loop_mailboxes split: option.splits)


lemma expunge_locked_calls:
  "\<exists>k. deleteOne_calls (trace (snd (snd (expunge_locked env self ses mb upd w))))
          = deleteOne_calls (trace w) @ take k (select_messages env mb upd w)"
proof (cases "select_error env self ses")
  case (Some e)
  then show ?thesis by (simp add: expunge_locked_def Let_def)
next
  case None
  let ?w1 = "send_statement self ses w"
  show ?thesis
    using None
      expunge_loop_calls [of env self ses mb upd "select_messages env mb upd ?w1" "[]" ?w1]
    by (simp add: expunge_locked_def Let_def)
qed

lemma expunge_locked_writes:
  "sorted (map write_uid (fst (snd (expunge_locked env self ses mb upd w))))
   \<and> set (fst (snd (expunge_locked env self ses mb upd w)))
       \<subseteq> (\<lambda>m. Response ''EXPUNGE'' (uid m)) ` set (select_messages env mb upd w)"
proof (cases "select_error env self ses")
  case (Some e)
  then show ?thesis by (simp add: expunge_locked_def Let_def)
next
  case None
  let ?w1 = "send_statement self ses w"
  let ?ms = "select_messages env mb upd w"
  have "sorted (map write_uid (fst (snd (expunge_loop env self ses mb upd ?ms [] ?w1))))
         \<and> set (fst (snd (expunge_loop env self ses mb upd ?ms [] ?w1)))
             \<subseteq> (\<lambda>m. Response ''EXPUNGE'' (uid m)) ` set ?ms"
    by (rule expunge_loop_writes) (simp_all add: select_messages_sorted)
  then show ?thesis
    using None by (simp add: expunge_locked_def Let_def)
qed

lemma expunge_locked_exact:
  assumes "select_error env self ses = None"
  shows "deleteOne_calls (trace (snd (snd (expunge_locked env self ses mb upd w))))
           = deleteOne_calls (trace w) @ deleteOne_reached env (select_messages env mb upd w)"
    and "deleted_once (trace (snd (snd (expunge_locked env self ses mb upd w))))
           = deleted_once (trace w)
             @ filter (\<lambda>m. deleteOne_reports env m = Some 1)
                 (handled env (select_messages env mb upd w))"
    and "gc_calls (trace (snd (snd (expunge_locked env self ses mb upd w))))
           = gc_calls (trace w)
             @ map (\<lambda>m. (attachmentIds m, magic m))
                 (filter (\<lambda>m. deleteOne_reports env m = Some 1 \<and> attachmentIds m \<noteq> [])
                    (handled env (select_messages env mb upd w)))"
    and "constructor_name self \<noteq> ''IMAP'' \<Longrightarrow>
         fst (snd (expunge_locked env self ses mb upd w))
           = map (\<lambda>m. Response ''EXPUNGE'' (uid m))
               (filter (\<lambda>m. deleteOne_reports env m = Some 1
                            \<and> (\<not> silent upd \<or> mailbox_selected ses mb))
                  (handled env (select_messages env mb upd w)))"
  using assms
    expunge_loop_exact [of env self ses mb upd "select_messages env mb upd w" "[]"
      "send_statement self ses w"]
  by (simp_all add: expunge_locked_def Let_def)

lemma processing_error_selected:
  "select_error env self ses = None \<Longrightarrow>
     processing_error env self ses mb upd w = first_thrown env (select_messages env mb upd w)"
  by (simp add: processing_error_def)

text \<open>The run of the handler once the lock is held.\<close>

lemma onExpunge_locked:
  assumes "constructor_name self \<noteq> ''IMAP''"
    and "refreshSession env ses ''EXPUNGE'' = Inr ses'"
    and "findOne_fails env = None"
    and "findOne w mailboxId = Some mb"
    and "acquireLock env = Inr lk"
  shows "onExpunge env self mailboxId upd ses w =
     (let s = expunge_locked env self ses' mb upd
                (emit (AcquireLock (Inr lk)) (emit (RefreshSession ''EXPUNGE'') w));
          w4 = request_size env self (release_lock env lk (snd (snd s)))
      in case fst s of
           None \<Rightarrow> respond (Fn None [VBool True, VWrites (fst (snd s))]) w4
         | Some e \<Rightarrow> expunge_catch env (Some lk) e w4)"
  using assms
  by (simp add: onExpunge_def expunge_backend_def expunge_mailbox_def Let_def case_prod_beta
      split: option.splits)

text \<open>The runs that end before the lock is held.\<close>

lemma onExpunge_refresh_fails:
  assumes "constructor_name self \<noteq> ''IMAP''"
    and "refreshSession env ses ''EXPUNGE'' = Inl e"
  shows "onExpunge env self mailboxId upd ses w
           = expunge_catch env None e (emit (RefreshSession ''EXPUNGE'') w)"
  using assms by (simp add: onExpunge_def expunge_backend_def Let_def)

lemma onExpunge_findOne_fails:
  assumes "constructor_name self \<noteq> ''IMAP''"
    and "refreshSession env ses ''EXPUNGE'' = Inr ses'"
    and "findOne_fails env = Some e"
  shows "onExpunge env self mailboxId upd ses w
           = expunge_catch env None e (emit (RefreshSession ''EXPUNGE'') w)"
  using assms by (simp add: onExpunge_def expunge_backend_def Let_def)

lemma onExpunge_no_mailbox:
  assumes "constructor_name self \<noteq> ''IMAP''"
    and "refreshSession env ses ''EXPUNGE'' = Inr ses'"
    and "findOne_fails env = None"
    and "findOne w mailboxId = None"
  shows "onExpunge env self mailboxId upd ses w
           = expunge_catch env None (mailbox_missing env ses') (emit (RefreshSession ''EXPUNGE'') w)"
  using assms by (simp add: onExpunge_def expunge_backend_def Let_def)

lemma onExpunge_acquire_fails:
  assumes "constructor_name self \<noteq> ''IMAP''"
    and "refreshSession env ses ''EXPUNGE'' = Inr ses'"
    and "findOne_fails env = None"
    and "findOne w mailboxId = Some mb"
    and "acquireLock env = Inl e"
  shows "onExpunge env self mailboxId upd ses w
           = expunge_catch env None e
               (emit (AcquireLock (Inl e)) (emit (RefreshSession ''EXPUNGE'') w))"
  using assms by (simp add: onExpunge_def expunge_backend_def expunge_mailbox_def Let_def)

lemma expunge_catch_reply: "fst (expunge_catch env lk e w) = error_reply env e"
  by (simp add: expunge_catch_def error_reply_def has_imapResponse_def respond_def pass_error_def
      Let_def split: option.splits)

lemma error_reply_not_success: "error_reply env e \<noteq> Fn None [VBool True, VWrites ws]"
  by (simp add: error_reply_def)

lemma expunge_catch_obs:
  "deleteOne_calls (trace (snd (expunge_catch env lk e w))) = deleteOne_calls (trace w)"
  "gc_calls (trace (snd (expunge_catch env lk e w))) = gc_calls (trace w)"
  "deleted_once (trace (snd (expunge_catch env lk e w))) = deleted_once (trace w)"
  "messages (snd (expunge_catch env lk e w)) = messages w"
  "journal (snd (expunge_catch env lk e w)) = journal w"
  "mailboxes (snd (expunge_catch env lk e w)) = mailboxes w"
  by (simp_all add: expunge_catch_def respond_def Let_def split: option.splits)

subsection \<open>Selection and order of processing\<close>

lemma respond_simps [simp]:
  "fst (respond cb w) = cb"
  "trace (snd (respond cb w)) = trace w @ [Callback cb]"
  "messages (snd (respond cb w)) = messages w"
  "mailboxes (snd (respond cb w)) = mailboxes w"
  "journal (snd (respond cb w)) = journal w"
  by (simp_all add: respond_def)

lemma option_events_obs [simp]:
  "deleteOne_calls (case x of None \<Rightarrow> [] | Some e \<Rightarrow> [LogFatal e]) = []"
  "gc_calls (case x of None \<Rightarrow> [] | Some e \<Rightarrow> [LogFatal e]) = []"
  "deleted_once (case x of None \<Rightarrow> [] | Some e \<Rightarrow> [LogFatal e]) = []"
  by (simp_all split: option.splits)

lemma backend_run_cases:
  obtains (refresh) e where "refreshSession env ses ''EXPUNGE'' = Inl e"
  | (find_fails) ses' e where "refreshSession env ses ''EXPUNGE'' = Inr ses'"
      "findOne_fails env = Some e"
  | (missing) ses' where "refreshSession env ses ''EXPUNGE'' = Inr ses'"
      "findOne_fails env = None" "findOne w mailboxId = None"
  | (acquire) ses' mb e where "refreshSession env ses ''EXPUNGE'' = Inr ses'"
      "findOne_fails env = None" "findOne w mailboxId = Some mb" "acquireLock env = Inl e"
  | (locked) ses' mb lk where "refreshSession env ses ''EXPUNGE'' = Inr ses'"
      "findOne_fails env = None" "findOne w mailboxId = Some mb" "acquireLock env = Inr lk"
  by (cases "refreshSession env ses ''EXPUNGE''"; cases "findOne_fails env";
      cases "findOne w mailboxId"; cases "acquireLock env") auto

lemma onExpunge_locked_obs:
  assumes "constructor_name self \<noteq> ''IMAP''"
    and "refreshSession env ses ''EXPUNGE'' = Inr ses'"
    and "findOne_fails env = None"
    and "findOne w mailboxId = Some mb"
    and "acquireLock env = Inr lk"
  shows "deleteOne_calls (trace (snd (onExpunge env self mailboxId upd ses w)))
           = deleteOne_calls (trace (snd (snd (expunge_locked env self ses' mb upd
                (emit (AcquireLock (Inr lk)) (emit (RefreshSession ''EXPUNGE'') w))))))"
    and "gc_calls (trace (snd (onExpunge env self mailboxId upd ses w)))
           = gc_calls (trace (snd (snd (expunge_locked env self ses' mb upd
                (emit (AcquireLock (Inr lk)) (emit (RefreshSession ''EXPUNGE'') w))))))"
    and "deleted_once (trace (snd (onExpunge env self mailboxId upd ses w)))
           = deleted_once (trace (snd (snd (expunge_locked env self ses' mb upd
                (emit (AcquireLock (Inr lk)) (emit (RefreshSession ''EXPUNGE'') w))))))"
  unfolding onExpunge_locked [OF assms]
  by (simp_all add: Let_def expunge_catch_obs split: option.splits)

text \<open>
  C3. On the backend, for the mailbox found under the id: the select statement returns
  exactly the rows of that mailbox whose \<^verbatim>\<open>undeleted\<close> is false, restricted to the uids
  the uid condition admits when \<^verbatim>\<open>update.isUid\<close> is set, and returns them in ascending
  uid order; \<^verbatim>\<open>deleteOne\<close> is called for an initial stretch of that list, in that
  order; and when the handler reports success, the writes it hands to the callback are
  EXPUNGE responses for selected rows, in ascending uid order. Once the lock is held and
  the select statement has returned, \<^verbatim>\<open>deleteOne\<close> is called for every selected row up
  to and including the first row for which something is thrown (that row excluded when it
  is \<^verbatim>\<open>convertResult\<close> that throws); when nothing is thrown it is called for every
  selected row, and the callback receives success with one EXPUNGE response for each
  selected row whose \<^verbatim>\<open>deleteOne\<close> reported one deleted row, in the order of the
  selection, provided \<^verbatim>\<open>update.silent\<close> is false or the mailbox is the selected one
  (no response otherwise).
\<close>

theorem expunge_selects_in_uid_order:
  assumes "constructor_name self \<noteq> ''IMAP''"
    and "findOne w mailboxId = Some mb"
  shows "set (select_messages env mb upd w) =
           {m \<in> set (messages w). msg_mailbox m = mailbox_id mb \<and> \<not> undeleted m \<and>
              (isUid upd \<longrightarrow> checkRangeQuery env (update_messages upd) (uid m))}
         \<and> sorted (map uid (select_messages env mb upd w))
         \<and> (\<exists>k. deleteOne_calls (trace (snd (onExpunge env self mailboxId upd ses w)))
                  = deleteOne_calls (trace w) @ take k (select_messages env mb upd w))
         \<and> (\<forall>ws. fst (onExpunge env self mailboxId upd ses w) = Fn None [VBool True, VWrites ws]
               \<longrightarrow> sorted (map write_uid ws)
                 \<and> set ws \<subseteq> (\<lambda>m. Response ''EXPUNGE'' (uid m)) ` set (select_messages env mb upd w))
         \<and> (\<forall>ses' lk.
               refreshSession env ses ''EXPUNGE'' = Inr ses' \<and> findOne_fails env = None
               \<and> acquireLock env = Inr lk \<and> select_error env self ses' = None
               \<longrightarrow> deleteOne_calls (trace (snd (onExpunge env self mailboxId upd ses w)))
                     = deleteOne_calls (trace w)
                       @ deleteOne_reached env (select_messages env mb upd w)
                 \<and> (first_thrown env (select_messages env mb upd w) = None
                    \<longrightarrow> deleteOne_calls (trace (snd (onExpunge env self mailboxId upd ses w)))
                          = deleteOne_calls (trace w) @ select_messages env mb upd w
                      \<and> fst (onExpunge env self mailboxId upd ses w)
                          = Fn None [VBool True, VWrites
                              (map (\<lambda>m. Response ''EXPUNGE'' (uid m))
                                 (filter (\<lambda>m. deleteOne_reports env m = Some 1
                                              \<and> (\<not> silent upd \<or> mailbox_selected ses' mb))
                                    (select_messages env mb upd w)))]))"
proof -
  let ?R = "onExpunge env self mailboxId upd ses w"
  let ?ms = "select_messages env mb upd w"
  let ?order = "\<exists>k. deleteOne_calls (trace (snd ?R)) = deleteOne_calls (trace w) @ take k ?ms"
  let ?writes = "\<forall>ws. fst ?R = Fn None [VBool True, VWrites ws]
               \<longrightarrow> sorted (map write_uid ws)
                 \<and> set ws \<subseteq> (\<lambda>m. Response ''EXPUNGE'' (uid m)) ` set ?ms"
  have run: "?order \<and> ?writes"
  proof (cases rule: backend_run_cases [where env=env and ses=ses and w=w and mailboxId=mailboxId])
    case (refresh e)
    show ?thesis
      unfolding onExpunge_refresh_fails [OF assms(1) refresh]
      by (simp add: expunge_catch_obs expunge_catch_reply error_reply_not_success)
  next
    case (find_fails ses' e)
    show ?thesis
      unfolding onExpunge_findOne_fails [OF assms(1) find_fails]
      by (simp add: expunge_catch_obs expunge_catch_reply error_reply_not_success)
  next
    case (missing ses')
    then show ?thesis using assms(2) by simp
  next
    case (acquire ses' mb' e)
    show ?thesis
      unfolding onExpunge_acquire_fails [OF assms(1) acquire]
      by (simp add: expunge_catch_obs expunge_catch_reply error_reply_not_success)
  next
    case (locked ses' mb' lk)
    let ?w1 = "emit (AcquireLock (Inr lk)) (emit (RefreshSession ''EXPUNGE'') w)"
    let ?s = "expunge_locked env self ses' mb upd ?w1"
    note unfold = onExpunge_locked [OF assms(1) locked(1,2) assms(2) locked(4)]
    obtain k where "deleteOne_calls (trace (snd (snd ?s)))
          = deleteOne_calls (trace ?w1) @ take k (select_messages env mb upd ?w1)"
      using expunge_locked_calls by blast
    then have a: ?order
      using onExpunge_locked_obs(1) [OF assms(1) locked(1,2) assms(2) locked(4)]
      by (intro exI [of _ k]) simp
    have "sorted (map write_uid (fst (snd ?s)))
       \<and> set (fst (snd ?s)) \<subseteq> (\<lambda>m. Response ''EXPUNGE'' (uid m)) ` set ?ms"
      using expunge_locked_writes [of env self ses' mb upd ?w1] by simp
    then have b: ?writes
      unfolding unfold
      by (auto simp: Let_def expunge_catch_reply error_reply_not_success split: option.splits)
    from a b show ?thesis by blast
  qed
  have all: "deleteOne_calls (trace (snd ?R)) = deleteOne_calls (trace w) @ deleteOne_reached env ?ms
      \<and> (first_thrown env ?ms = None
          \<longrightarrow> deleteOne_calls (trace (snd ?R)) = deleteOne_calls (trace w) @ ?ms
            \<and> fst ?R = Fn None [VBool True, VWrites
                 (map (\<lambda>m. Response ''EXPUNGE'' (uid m))
                    (filter (\<lambda>m. deleteOne_reports env m = Some 1
                                 \<and> (\<not> silent upd \<or> mailbox_selected ses' mb)) ?ms))])"
    if locked: "refreshSession env ses ''EXPUNGE'' = Inr ses'" "findOne_fails env = None"
      "acquireLock env = Inr lk" and selected: "select_error env self ses' = None" for ses' lk
  proof -
    let ?w1 = "emit (AcquireLock (Inr lk)) (emit (RefreshSession ''EXPUNGE'') w)"
    let ?s = "expunge_locked env self ses' mb upd ?w1"
    note unfold = onExpunge_locked [OF assms(1) locked(1,2) assms(2) locked(3)]
    have calls: "deleteOne_calls (trace (snd ?R))
        = deleteOne_calls (trace w) @ deleteOne_reached env ?ms"
      using onExpunge_locked_obs(1) [OF assms(1) locked(1,2) assms(2) locked(3)]
        expunge_locked_exact(1) [OF selected, of mb upd ?w1]
      by simp
    have reply: "fst ?R = Fn None [VBool True, VWrites
                 (map (\<lambda>m. Response ''EXPUNGE'' (uid m))
                    (filter (\<lambda>m. deleteOne_reports env m = Some 1
                                 \<and> (\<not> silent upd \<or> mailbox_selected ses' mb)) ?ms))]"
      if quiet: "first_thrown env ?ms = None"
    proof -
      have "fst ?s = None"
        using quiet selected by (simp add: expunge_locked_error processing_error_def)
      moreover have "fst (snd ?s) = map (\<lambda>m. Response ''EXPUNGE'' (uid m))
                    (filter (\<lambda>m. deleteOne_reports env m = Some 1
                                 \<and> (\<not> silent upd \<or> mailbox_selected ses' mb)) ?ms)"
        using expunge_locked_exact(4) [OF selected assms(1), of mb upd ?w1]
          nothing_thrown_all [OF quiet]
        by simp
      ultimately show ?thesis
        unfolding unfold by (simp add: Let_def)
    qed
    show ?thesis
      using calls reply nothing_thrown_all by simp
  qed
  show ?thesis
    using select_messages_set [of env mb upd w] select_messages_sorted [of env mb upd w] run all
    by blast
qed

text \<open>
  The sample account: without a uid range the rows with uids 5 and 9 are selected and
  \<^verbatim>\<open>deleteOne\<close> is called for both, in that order, with one EXPUNGE response each; when
  \<^verbatim>\<open>deleteOne\<close> throws for the row with uid 9 it is still called for both rows; with the
  uid range 9 only the row with uid 9 is selected.
\<close>

theorem expunge_selects_in_uid_order_witness:
  "constructor_name sqlite_server \<noteq> ''IMAP'' \<and> findOne account ''m1'' = Some inbox
   \<and> select_messages quiet_env inbox all_update account = [msg5, msg9]
   \<and> set (select_messages quiet_env inbox all_update account) = {msg5, msg9}
   \<and> sorted (map uid (select_messages quiet_env inbox all_update account))
   \<and> deleteOne_calls (trace (snd (onExpunge quiet_env sqlite_server ''m1'' all_update client account)))
       = [msg5, msg9]
   \<and> fst (onExpunge quiet_env sqlite_server ''m1'' all_update client account)
       = Fn None [VBool True, VWrites [Response ''EXPUNGE'' 5, Response ''EXPUNGE'' 9]]
   \<and> sorted (map write_uid [Response ''EXPUNGE'' 5, Response ''EXPUNGE'' 9])
   \<and> deleteOne_calls (trace (snd (onExpunge delete_down sqlite_server ''m1'' all_update client account)))
       = [msg5, msg9]
   \<and> isUid uid_update
   \<and> set (select_messages quiet_env inbox uid_update account) = {msg9}
   \<and> deleteOne_calls (trace (snd (onExpunge quiet_env sqlite_server ''m1'' uid_update client account)))
       = [msg9]"
proof -
  have a: "constructor_name sqlite_server \<noteq> ''IMAP''" by (simp add: sqlite_server_def)
  have b: "findOne account ''m1'' = Some inbox" by (simp add: findOne_def account_def inbox_def)
  have c: "select_messages quiet_env inbox all_update account = [msg5, msg9]"
    by (simp add: select_messages_def expunge_condition_def account_def inbox_def all_update_def
        msg5_def msg7_def msg9_def)
  have c': "select_messages delete_down inbox all_update account = [msg5, msg9]"
    by (simp add: select_messages_def expunge_condition_def account_def inbox_def all_update_def
        msg5_def msg7_def msg9_def)
  have c'': "select_messages quiet_env inbox uid_update account = [msg9]"
    by (simp add: select_messages_def expunge_condition_def account_def inbox_def uid_update_def
        quiet_env_def msg5_def msg7_def msg9_def)
  have held: "refreshSession quiet_env client ''EXPUNGE'' = Inr client \<and> findOne_fails quiet_env = None
      \<and> acquireLock quiet_env = Inr \<lparr>lock_id = ''a1'', lock_success = True\<rparr>
      \<and> select_error quiet_env sqlite_server client = None"
    by (simp add: quiet_env_def select_error_def client_def)
  have held': "refreshSession delete_down client ''EXPUNGE'' = Inr client
      \<and> findOne_fails delete_down = None
      \<and> acquireLock delete_down = Inr \<lparr>lock_id = ''a1'', lock_success = True\<rparr>
      \<and> select_error delete_down sqlite_server client = None"
    by (simp add: delete_down_def quiet_env_def select_error_def client_def)
  have quiet: "first_thrown quiet_env [msg5, msg9] = None"
    by (simp add: thrown_by_def quiet_env_def)
  have quiet': "first_thrown quiet_env [msg9] = None"
    by (simp add: thrown_by_def quiet_env_def)
  have reached: "deleteOne_reached delete_down [msg5, msg9] = [msg5, msg9]"
    by (simp add: delete_down_def quiet_env_def msg5_def msg9_def)
  have no_calls: "deleteOne_calls (trace account) = []" by (simp add: account_def)
  have spoken: "map (\<lambda>m. Response ''EXPUNGE'' (uid m))
        (filter (\<lambda>m. deleteOne_reports quiet_env m = Some 1
                     \<and> (\<not> silent all_update \<or> mailbox_selected client inbox)) [msg5, msg9])
      = [Response ''EXPUNGE'' 5, Response ''EXPUNGE'' 9]"
    by (simp add: quiet_env_def all_update_def msg5_def msg9_def)
  note claim = expunge_selects_in_uid_order [OF a b, where env=quiet_env and upd=all_update
      and ses=client]
  note failing = expunge_selects_in_uid_order [OF a b, where env=delete_down and upd=all_update
      and ses=client]
  note ranged = expunge_selects_in_uid_order [OF a b, where env=quiet_env and upd=uid_update
      and ses=client]
  note run = claim [THEN conjunct2, THEN conjunct2, THEN conjunct2, THEN conjunct2, THEN spec,
      THEN spec, THEN mp, OF held]
  note run' = failing [THEN conjunct2, THEN conjunct2, THEN conjunct2, THEN conjunct2, THEN spec,
      THEN spec, THEN mp, OF held']
  note run'' = ranged [THEN conjunct2, THEN conjunct2, THEN conjunct2, THEN conjunct2, THEN spec,
      THEN spec, THEN mp, OF held]
  from claim have e: "sorted (map uid (select_messages quiet_env inbox all_update account))"
    by blast
  have f: "deleteOne_calls (trace (snd (onExpunge quiet_env sqlite_server ''m1'' all_update client account)))
       = [msg5, msg9]"
    using run [THEN conjunct2, THEN mp, THEN conjunct1] quiet no_calls unfolding c by simp
  have d: "fst (onExpunge quiet_env sqlite_server ''m1'' all_update client account)
       = Fn None [VBool True, VWrites [Response ''EXPUNGE'' 5, Response ''EXPUNGE'' 9]]"
    using run [THEN conjunct2, THEN mp, THEN conjunct2] quiet spoken unfolding c by simp
  from claim d have g: "sorted (map write_uid [Response ''EXPUNGE'' 5, Response ''EXPUNGE'' 9])"
    by blast
  have k: "deleteOne_calls (trace (snd (onExpunge delete_down sqlite_server ''m1'' all_update client account)))
       = [msg5, msg9]"
    using run' [THEN conjunct1] reached no_calls unfolding c' by simp
  have h: "set (select_messages quiet_env inbox all_update account) = {msg5, msg9}"
    using c by simp
  have i: "isUid uid_update" by (simp add: uid_update_def)
  from ranged have "set (select_messages quiet_env inbox uid_update account) =
      {m \<in> set (messages account). msg_mailbox m = mailbox_id inbox \<and> \<not> undeleted m \<and>
         (isUid uid_update \<longrightarrow> checkRangeQuery quiet_env (update_messages uid_update) (uid m))}"
    by (rule conjunct1)
  also have "\<dots> = {msg9}"
    by (auto simp: account_def inbox_def uid_update_def quiet_env_def msg5_def msg7_def msg9_def)
  finally have j: "set (select_messages quiet_env inbox uid_update account) = {msg9}" .
  have l: "deleteOne_calls (trace (snd (onExpunge quiet_env sqlite_server ''m1'' uid_update client account)))
       = [msg9]"
    using run'' [THEN conjunct2, THEN mp, THEN conjunct1] quiet' no_calls unfolding c'' by simp
  from a b c h e f d g k i j l show ?thesis by (intro conjI)
qed
subsection \<open>Attachment garbage collection\<close>










lemma error_reply_gc [simp]: "error_reply (env\<lparr>deleteMany_fails := f\<rparr>) e = error_reply env e"
  by (simp add: error_reply_def)


lemma thrown_by_gc [simp]: "thrown_by (env\<lparr>deleteMany_fails := f\<rparr>) r = thrown_by env r"
  by (simp add: thrown_by_def split: option.splits)



lemma select_error_gc [simp]:
  "select_error (env\<lparr>deleteMany_fails := f\<rparr>) self ses = select_error env self ses"
  by (simp add: select_error_def)

lemma first_thrown_gc [simp]:
  "first_thrown (env\<lparr>deleteMany_fails := f\<rparr>) ms = first_thrown env ms"
  by (induction ms) (simp_all split: option.splits)

lemma expunge_condition_gc [simp]:
  "expunge_condition (env\<lparr>deleteMany_fails := f\<rparr>) mb upd = expunge_condition env mb upd"
  by (rule ext) (simp add: expunge_condition_def)






subsection \<open>Release of the lock\<close>

lemma expunge_catch_extends:
  "\<exists>post. trace (snd (expunge_catch env lk e w))
            = trace w @ post @ [Callback (fst (expunge_catch env lk e w))]"
proof -
  let ?rel = "case lk of None \<Rightarrow> []
              | Some l \<Rightarrow> if lock_success l
                  then ReleaseLock l # (case releaseLock_fails env of Some x \<Rightarrow> [LogFatal x] | None \<Rightarrow> [])
                  else []"
  let ?log = "if has_imapResponse e then [LogError e] else []"
  have "trace (snd (expunge_catch env lk e w))
            = trace w @ (?rel @ ?log) @ [Callback (fst (expunge_catch env lk e w))]"
    by (simp add: expunge_catch_def has_imapResponse_def respond_def Let_def split: option.splits)
  then show ?thesis by blast
qed

lemma processing_error_emit [simp]:
  "processing_error env self ses mb upd (emit ev w) = processing_error env self ses mb upd w"
  by (simp add: processing_error_def split: option.splits)

lemma onExpunge_locked_order:
  assumes "constructor_name self \<noteq> ''IMAP''"
    and "refreshSession env ses ''EXPUNGE'' = Inr ses'"
    and "findOne_fails env = None"
    and "findOne w mailboxId = Some mb"
    and "acquireLock env = Inr lk"
  shows "\<exists>pre post. trace (snd (onExpunge env self mailboxId upd ses w))
            = trace w @ RefreshSession ''EXPUNGE'' # AcquireLock (Inr lk) # pre
              @ ReleaseLock lk # post @ [Callback (fst (onExpunge env self mailboxId upd ses w))]"
proof -
  let ?R = "onExpunge env self mailboxId upd ses w"
  let ?w1 = "emit (AcquireLock (Inr lk)) (emit (RefreshSession ''EXPUNGE'') w)"
  let ?s = "expunge_locked env self ses' mb upd ?w1"
  let ?w4 = "request_size env self (release_lock env lk (snd (snd ?s)))"
  let ?tail = "(case releaseLock_fails env of Some x \<Rightarrow> [LogFatal x] | None \<Rightarrow> [])
               @ (if has_wsp self
                  then RpcRequest ''size'' # (case size_fails env of Some x \<Rightarrow> [LogFatal x] | None \<Rightarrow> [])
                  else [LogFatal wsp_unset])"
  note run = onExpunge_locked [OF assms, of upd]
  obtain pre where pre: "trace (snd (snd ?s)) = trace ?w1 @ pre"
    using expunge_locked_extends by blast
  have w4: "trace ?w4 = trace w @ RefreshSession ''EXPUNGE'' # AcquireLock (Inr lk) # pre
              @ ReleaseLock lk # ?tail"
    using pre by simp
  show ?thesis
  proof (cases "fst ?s")
    case None
    have "trace (snd ?R) = trace w @ RefreshSession ''EXPUNGE'' # AcquireLock (Inr lk) # pre
              @ ReleaseLock lk # ?tail @ [Callback (fst ?R)]"
      unfolding run using None w4 by (simp add: Let_def)
    then show ?thesis by blast
  next
    case (Some e)
    obtain post where "trace (snd (expunge_catch env (Some lk) e ?w4))
            = trace ?w4 @ post @ [Callback (fst (expunge_catch env (Some lk) e ?w4))]"
      using expunge_catch_extends by blast
    then have "trace (snd ?R) = trace w @ RefreshSession ''EXPUNGE'' # AcquireLock (Inr lk) # pre
              @ ReleaseLock lk # (?tail @ post) @ [Callback (fst ?R)]"
      unfolding run using Some w4 by (simp add: Let_def)
    then show ?thesis by blast
  qed
qed

lemma expunge_catch_acquisitions:
  "filter is_acquire (trace (snd (expunge_catch env lko e w))) = filter is_acquire (trace w)"
  by (simp add: expunge_catch_def respond_def Let_def split: option.splits)

lemma expunge_catch_grows:
  "\<exists>evs. trace (snd (expunge_catch env lko e w)) = trace w @ evs"
  using expunge_catch_extends [of env lko e w] by auto

lemma onExpunge_acquisitions:
  assumes "constructor_name self \<noteq> ''IMAP''"
  shows "filter is_acquire (trace (snd (onExpunge env self mailboxId upd ses w)))
           = filter is_acquire (trace w) @ acquisitions env ses mailboxId w"
proof (cases rule: backend_run_cases [where env=env and ses=ses and w=w and mailboxId=mailboxId])
  case (refresh e)
  show ?thesis
    unfolding onExpunge_refresh_fails [OF assms refresh]
    using refresh by (simp add: expunge_catch_acquisitions acquisitions_def)
next
  case (find_fails ses' e)
  show ?thesis
    unfolding onExpunge_findOne_fails [OF assms find_fails]
    using find_fails by (simp add: expunge_catch_acquisitions acquisitions_def)
next
  case (missing ses')
  show ?thesis
    unfolding onExpunge_no_mailbox [OF assms missing]
    using missing by (simp add: expunge_catch_acquisitions acquisitions_def)
next
  case (acquire ses' mb e)
  show ?thesis
    unfolding onExpunge_acquire_fails [OF assms acquire]
    using acquire by (simp add: expunge_catch_acquisitions acquisitions_def)
next
  case (locked ses' mb lk)
  let ?w1 = "emit (AcquireLock (Inr lk)) (emit (RefreshSession ''EXPUNGE'') w)"
  have "filter is_acquire (trace (snd (snd (expunge_locked env self ses' mb upd ?w1))))
          = filter is_acquire (trace ?w1)"
    using expunge_locked_locks [of env self ses' mb upd ?w1] by simp
  then show ?thesis
    unfolding onExpunge_locked [OF assms locked]
    using locked
    by (simp add: Let_def expunge_catch_acquisitions acquisitions_def split: option.splits)
qed

lemma onExpunge_grows:
  assumes "constructor_name self \<noteq> ''IMAP''"
  shows "\<exists>evs. trace (snd (onExpunge env self mailboxId upd ses w)) = trace w @ evs"
proof (cases rule: backend_run_cases [where env=env and ses=ses and w=w and mailboxId=mailboxId])
  case (refresh e)
  show ?thesis
    unfolding onExpunge_refresh_fails [OF assms refresh]
    using expunge_catch_grows [of env None e "emit (RefreshSession ''EXPUNGE'') w"] by auto
next
  case (find_fails ses' e)
  show ?thesis
    unfolding onExpunge_findOne_fails [OF assms find_fails]
    using expunge_catch_grows [of env None e "emit (RefreshSession ''EXPUNGE'') w"] by auto
next
  case (missing ses')
  show ?thesis
    unfolding onExpunge_no_mailbox [OF assms missing]
    using expunge_catch_grows [of env None "mailbox_missing env ses'"
        "emit (RefreshSession ''EXPUNGE'') w"] by auto
next
  case (acquire ses' mb e)
  show ?thesis
    unfolding onExpunge_acquire_fails [OF assms acquire]
    using expunge_catch_grows [of env None e
        "emit (AcquireLock (Inl e)) (emit (RefreshSession ''EXPUNGE'') w)"] by auto
next
  case (locked ses' mb lk)
  show ?thesis
    using onExpunge_locked_order [OF assms locked, of upd] by auto
qed

lemma new_events_acquire:
  assumes "\<exists>evs. tr' = tr @ evs" and "filter is_acquire tr' = filter is_acquire tr @ acq"
  shows "AcquireLock r \<in> set (drop (length tr) tr') \<longleftrightarrow> AcquireLock r \<in> set acq"
proof -
  obtain evs where evs: "tr' = tr @ evs" using assms(1) by blast
  then have "filter is_acquire evs = acq" using assms(2) by simp
  moreover have "AcquireLock r \<in> set evs \<longleftrightarrow> AcquireLock r \<in> set (filter is_acquire evs)"
    by simp
  ultimately show ?thesis using evs by simp
qed

text \<open>
  A backend EXPUNGE gets a lock from \<^verbatim>\<open>acquireLock\<close> in exactly these runs: the session
  refreshes, \<^verbatim>\<open>findOne\<close> does not throw and finds the mailbox, and \<^verbatim>\<open>acquireLock\<close>
  returns the lock.
\<close>

lemma lock_acquired_iff:
  assumes "constructor_name self \<noteq> ''IMAP''"
  shows "AcquireLock (Inr lk)
           \<in> set (drop (length (trace w)) (trace (snd (onExpunge env self mailboxId upd ses w))))
         \<longleftrightarrow> (\<exists>ses' mb. refreshSession env ses ''EXPUNGE'' = Inr ses' \<and> findOne_fails env = None
                \<and> findOne w mailboxId = Some mb \<and> acquireLock env = Inr lk)"
proof -
  have "AcquireLock (Inr lk)
           \<in> set (drop (length (trace w)) (trace (snd (onExpunge env self mailboxId upd ses w))))
         \<longleftrightarrow> AcquireLock (Inr lk) \<in> set (acquisitions env ses mailboxId w)"
    using onExpunge_grows [OF assms] onExpunge_acquisitions [OF assms]
    by (rule new_events_acquire)
  also have "\<dots> \<longleftrightarrow> (\<exists>ses' mb. refreshSession env ses ''EXPUNGE'' = Inr ses' \<and> findOne_fails env = None
                \<and> findOne w mailboxId = Some mb \<and> acquireLock env = Inr lk)"
    by (cases "refreshSession env ses ''EXPUNGE''"; cases "findOne_fails env";
        cases "findOne w mailboxId")
       (auto simp: acquisitions_def)
  finally show ?thesis .
qed

text \<open>
  C2. On the backend, when the handler has got the lock from \<^verbatim>\<open>acquireLock\<close>:
  whatever the collaborators throw afterwards, the calls it makes are the refresh, the
  acquisition, then a release of that lock, and the callback comes last, after the release;
  when the select statement or the loop threw, the callback is called for the first error
  thrown (with its response code if it carries one, with the refined error otherwise); when
  nothing was thrown there, it is called as \<^verbatim>\<open>fn(null, true, writeStream)\<close> with the
  writes queued by the loop.
\<close>

theorem expunge_releases_lock_before_reply:
  assumes "constructor_name self \<noteq> ''IMAP''"
    and "refreshSession env ses ''EXPUNGE'' = Inr ses'"
    and "findOne_fails env = None"
    and "findOne w mailboxId = Some mb"
    and "acquireLock env = Inr lk"
  shows "(\<exists>pre post. trace (snd (onExpunge env self mailboxId upd ses w))
            = trace w @ RefreshSession ''EXPUNGE'' # AcquireLock (Inr lk) # pre
              @ ReleaseLock lk # post @ [Callback (fst (onExpunge env self mailboxId upd ses w))])
         \<and> (\<forall>e. processing_error env self ses' mb upd w = Some e \<longrightarrow>
               fst (onExpunge env self mailboxId upd ses w) = error_reply env e)
         \<and> (processing_error env self ses' mb upd w = None \<longrightarrow>
               fst (onExpunge env self mailboxId upd ses w)
                 = Fn None [VBool True,
                     VWrites (fst (snd (expunge_locked env self ses' mb upd
                        (emit (AcquireLock (Inr lk)) (emit (RefreshSession ''EXPUNGE'') w)))))])"
proof -
  let ?R = "onExpunge env self mailboxId upd ses w"
  let ?w1 = "emit (AcquireLock (Inr lk)) (emit (RefreshSession ''EXPUNGE'') w)"
  let ?s = "expunge_locked env self ses' mb upd ?w1"
  note run = onExpunge_locked [OF assms, of upd]
  have err: "fst ?s = processing_error env self ses' mb upd w"
    by (simp add: expunge_locked_error)
  have failure: "\<forall>e. processing_error env self ses' mb upd w = Some e \<longrightarrow> fst ?R = error_reply env e"
    unfolding run using err by (simp add: Let_def expunge_catch_reply)
  have success: "processing_error env self ses' mb upd w = None \<longrightarrow>
      fst ?R = Fn None [VBool True, VWrites (fst (snd ?s))]"
    unfolding run using err by (simp add: Let_def)
  from onExpunge_locked_order [OF assms, of upd] failure success show ?thesis by blast
qed

text \<open>
  The sample account when \<^verbatim>\<open>deleteOne\<close> throws for the row with uid 9: the row with uid
  5 is processed, the lock is released (twice), and only then the callback gets the error.
  When nothing throws, the callback gets success and both writes after the release.
\<close>

theorem expunge_releases_lock_before_reply_witness:
  "constructor_name sqlite_server \<noteq> ''IMAP''
   \<and> acquireLock delete_down = Inr \<lparr>lock_id = ''a1'', lock_success = True\<rparr>
   \<and> processing_error delete_down sqlite_server client inbox all_update account = Some (plain_error ''disk full'')
   \<and> fst (onExpunge delete_down sqlite_server ''m1'' all_update client account)
       = Fn (Some (plain_error ''disk full'')) []
   \<and> trace (snd (onExpunge delete_down sqlite_server ''m1'' all_update client account))
       = [RefreshSession ''EXPUNGE'', AcquireLock (Inr \<lparr>lock_id = ''a1'', lock_success = True\<rparr>),
          DeleteOne msg5 (Inr (Some 1)), DeleteMany [''h1''] ''k5'', Fire ''a1'',
          DeleteOne msg9 (Inl (plain_error ''disk full'')),
          ReleaseLock \<lparr>lock_id = ''a1'', lock_success = True\<rparr>, LogFatal wsp_unset,
          ReleaseLock \<lparr>lock_id = ''a1'', lock_success = True\<rparr>,
          Callback (Fn (Some (plain_error ''disk full'')) [])]
   \<and> (\<exists>pre post. trace (snd (onExpunge delete_down sqlite_server ''m1'' all_update client account))
            = trace account @ RefreshSession ''EXPUNGE''
              # AcquireLock (Inr \<lparr>lock_id = ''a1'', lock_success = True\<rparr>) # pre
              @ ReleaseLock \<lparr>lock_id = ''a1'', lock_success = True\<rparr> # post
              @ [Callback (fst (onExpunge delete_down sqlite_server ''m1'' all_update client account))])
   \<and> processing_error quiet_env sqlite_server client inbox all_update account = None
   \<and> fst (onExpunge quiet_env sqlite_server ''m1'' all_update client account)
       = Fn None [VBool True, VWrites [Response ''EXPUNGE'' 5, Response ''EXPUNGE'' 9]]"
proof -
  have backend: "constructor_name sqlite_server \<noteq> ''IMAP''" by (simp add: sqlite_server_def)
  have refresh: "refreshSession delete_down client ''EXPUNGE'' = Inr client"
    by (simp add: delete_down_def quiet_env_def)
  have found: "findOne_fails delete_down = None" "findOne account ''m1'' = Some inbox"
    by (simp_all add: delete_down_def quiet_env_def findOne_def account_def inbox_def)
  have lock: "acquireLock delete_down = Inr \<lparr>lock_id = ''a1'', lock_success = True\<rparr>"
    by (simp add: delete_down_def quiet_env_def)
  have thrown: "processing_error delete_down sqlite_server client inbox all_update account = Some (plain_error ''disk full'')"
    by code_simp
  have reply: "error_reply delete_down (plain_error ''disk full'') = Fn (Some (plain_error ''disk full'')) []"
    by code_simp
  have calls: "trace (snd (onExpunge delete_down sqlite_server ''m1'' all_update client account))
       = [RefreshSession ''EXPUNGE'', AcquireLock (Inr \<lparr>lock_id = ''a1'', lock_success = True\<rparr>),
          DeleteOne msg5 (Inr (Some 1)), DeleteMany [''h1''] ''k5'', Fire ''a1'',
          DeleteOne msg9 (Inl (plain_error ''disk full'')),
          ReleaseLock \<lparr>lock_id = ''a1'', lock_success = True\<rparr>, LogFatal wsp_unset,
          ReleaseLock \<lparr>lock_id = ''a1'', lock_success = True\<rparr>,
          Callback (Fn (Some (plain_error ''disk full'')) [])]"
    by code_simp
  note claim = expunge_releases_lock_before_reply [OF backend refresh found lock,
      where upd=all_update]
  from claim have order:
    "\<exists>pre post. trace (snd (onExpunge delete_down sqlite_server ''m1'' all_update client account))
            = trace account @ RefreshSession ''EXPUNGE''
              # AcquireLock (Inr \<lparr>lock_id = ''a1'', lock_success = True\<rparr>) # pre
              @ ReleaseLock \<lparr>lock_id = ''a1'', lock_success = True\<rparr> # post
              @ [Callback (fst (onExpunge delete_down sqlite_server ''m1'' all_update client account))]"
    by (rule conjunct1)
  from claim have "\<forall>e. processing_error delete_down sqlite_server client inbox all_update account = Some e \<longrightarrow>
      fst (onExpunge delete_down sqlite_server ''m1'' all_update client account)
        = error_reply delete_down e"
    by (rule conjunct2 [THEN conjunct1])
  then have "processing_error delete_down sqlite_server client inbox all_update account = Some (plain_error ''disk full'') \<longrightarrow>
      fst (onExpunge delete_down sqlite_server ''m1'' all_update client account)
        = error_reply delete_down (plain_error ''disk full'')"
    by (rule spec)
  then have "fst (onExpunge delete_down sqlite_server ''m1'' all_update client account)
          = error_reply delete_down (plain_error ''disk full'')"
    by (rule mp) (rule thrown)
  then have passed: "fst (onExpunge delete_down sqlite_server ''m1'' all_update client account)
       = Fn (Some (plain_error ''disk full'')) []"
    using reply by (rule trans)
  have refresh': "refreshSession quiet_env client ''EXPUNGE'' = Inr client"
    by (simp add: quiet_env_def)
  have found': "findOne_fails quiet_env = None" by (simp add: quiet_env_def)
  have lock': "acquireLock quiet_env = Inr \<lparr>lock_id = ''a1'', lock_success = True\<rparr>"
    by (simp add: quiet_env_def)
  have unthrown: "processing_error quiet_env sqlite_server client inbox all_update account = None"
    by code_simp
  have queued: "fst (snd (expunge_locked quiet_env sqlite_server client inbox all_update
        (emit (AcquireLock (Inr \<lparr>lock_id = ''a1'', lock_success = True\<rparr>))
           (emit (RefreshSession ''EXPUNGE'') account))))
      = [Response ''EXPUNGE'' 5, Response ''EXPUNGE'' 9]"
    by code_simp
  note quiet = expunge_releases_lock_before_reply [OF backend refresh' found' found(2) lock',
      where upd=all_update]
  from quiet have "processing_error quiet_env sqlite_server client inbox all_update account = None \<longrightarrow>
      fst (onExpunge quiet_env sqlite_server ''m1'' all_update client account)
       = Fn None [VBool True, VWrites (fst (snd (expunge_locked quiet_env sqlite_server client inbox
           all_update (emit (AcquireLock (Inr \<lparr>lock_id = ''a1'', lock_success = True\<rparr>))
             (emit (RefreshSession ''EXPUNGE'') account)))))]"
    by (rule conjunct2 [THEN conjunct2])
  then have "fst (onExpunge quiet_env sqlite_server ''m1'' all_update client account)
       = Fn None [VBool True, VWrites (fst (snd (expunge_locked quiet_env sqlite_server client inbox
           all_update (emit (AcquireLock (Inr \<lparr>lock_id = ''a1'', lock_success = True\<rparr>))
             (emit (RefreshSession ''EXPUNGE'') account)))))]"
    by (rule mp) (rule unthrown)
  then have success: "fst (onExpunge quiet_env sqlite_server ''m1'' all_update client account)
       = Fn None [VBool True, VWrites [Response ''EXPUNGE'' 5, Response ''EXPUNGE'' 9]]"
    unfolding queued .
  from backend lock thrown passed calls order unthrown success show ?thesis
    by (intro conjI)
qed

subsection \<open>The scenario with two soft-deleted rows\<close>







lemma option_events_filters [simp]:
  "filter is_fire (case x of None \<Rightarrow> [] | Some e \<Rightarrow> [LogFatal e]) = []"
  "filter is_acquire (case x of None \<Rightarrow> [] | Some e \<Rightarrow> [LogFatal e]) = []"
  "filter is_release (case x of None \<Rightarrow> [] | Some e \<Rightarrow> [LogFatal e]) = []"
  by (simp_all split: option.splits)





end
